theory Spec2Isabelle
  imports Complex_Main "HOL-Library.Multiset" "HOL-Library.List_Lexorder"
begin

section \<open>JavaScript strings and their library functions\<close>

text \<open>
  A JavaScript string is modelled as an Isabelle \<open>string\<close>: each \<open>char\<close> is one code
  unit in the range U+0000 to U+00FF (ASCII and Latin-1), which covers the digits,
  punctuation and Portuguese letters the parsers are written for.
\<close>

definition code :: "char \<Rightarrow> nat" where
  "code c = of_char c"

definition is_digit :: "char \<Rightarrow> bool" where
  \<comment> \<open>the regular-expression class \<open>\\d\<close>\<close>
  "is_digit c = (48 \<le> code c \<and> code c \<le> 57)"

definition is_space_code :: "nat \<Rightarrow> bool" where
  \<comment> \<open>the class \<open>\\s\<close>, which is also what \<open>trim\<close> removes: TAB, LF, VT, FF, CR, space,
     NBSP and the Unicode space separators\<close>
  "is_space_code n =
     (n = 9 \<or> n = 10 \<or> n = 11 \<or> n = 12 \<or> n = 13 \<or> n = 32 \<or> n = 160 \<or> n = 5760
      \<or> (8192 \<le> n \<and> n \<le> 8202) \<or> n = 8232 \<or> n = 8233 \<or> n = 8239 \<or> n = 8287
      \<or> n = 12288 \<or> n = 65279)"

definition is_space :: "char \<Rightarrow> bool" where
  "is_space c = is_space_code (code c)"

definition trim_by :: "('a \<Rightarrow> bool) \<Rightarrow> 'a list \<Rightarrow> 'a list" where
  "trim_by ws s = rev (dropWhile ws (rev (dropWhile ws s)))"

definition trim :: "string \<Rightarrow> string" where
  \<comment> \<open>\<open>String.prototype.trim\<close>\<close>
  "trim s = trim_by is_space s"

definition startsWith :: "string \<Rightarrow> string \<Rightarrow> bool" where
  "startsWith s p = (take (length p) s = p)"

definition endsWith :: "string \<Rightarrow> string \<Rightarrow> bool" where
  "endsWith s p = (length p \<le> length s \<and> drop (length s - length p) s = p)"

fun str_includes :: "string \<Rightarrow> string \<Rightarrow> bool" where
  \<comment> \<open>\<open>String.prototype.includes\<close>: the pattern occurs at some position\<close>
  "str_includes [] p = (p = [])"
| "str_includes (c # cs) p = (startsWith (c # cs) p \<or> str_includes cs p)"

definition slice_1_m1 :: "string \<Rightarrow> string" where
  \<comment> \<open>\<open>s.slice(1, -1)\<close>: from index 1 up to, not including, the last index\<close>
  "slice_1_m1 s = take (length s - 2) (drop 1 s)"

fun remove_first :: "char \<Rightarrow> string \<Rightarrow> string" where
  \<comment> \<open>\<open>s.replace(c, '')\<close> with a string pattern: only the first occurrence goes\<close>
  "remove_first c [] = []"
| "remove_first c (x # xs) = (if x = c then xs else x # remove_first c xs)"

fun split_where :: "('a \<Rightarrow> bool) \<Rightarrow> 'a list \<Rightarrow> 'a list list" where
  \<comment> \<open>\<open>String.prototype.split\<close> on a one-character separator (class): the pieces
     between separators, empty pieces kept\<close>
  "split_where sep [] = [[]]"
| "split_where sep (c # cs) =
     (if sep c then [] # split_where sep cs
      else (case split_where sep cs of
              [] \<Rightarrow> [[c]]
            | p # ps \<Rightarrow> (c # p) # ps))"

definition split_on :: "char \<Rightarrow> string \<Rightarrow> string list" where
  "split_on c s = split_where (\<lambda>x. x = c) s"

definition padEnd :: "string \<Rightarrow> nat \<Rightarrow> char \<Rightarrow> string" where
  "padEnd s n c = s @ replicate (n - length s) c"

definition padStart :: "string \<Rightarrow> nat \<Rightarrow> char \<Rightarrow> string" where
  "padStart s n c = replicate (n - length s) c @ s"

definition substring :: "string \<Rightarrow> nat \<Rightarrow> nat \<Rightarrow> string" where
  \<comment> \<open>\<open>s.substring(a, b)\<close> for \<open>a \<le> b\<close>\<close>
  "substring s a b = take (b - a) (drop a s)"

definition lower_code :: "nat \<Rightarrow> nat" where
  \<comment> \<open>lower case of a code unit below U+0100: A to Z, and the Latin-1 capitals
     U+00C0 to U+00DE without the multiplication sign U+00D7\<close>
  "lower_code n =
     (if (65 \<le> n \<and> n \<le> 90) \<or> (192 \<le> n \<and> n \<le> 222 \<and> n \<noteq> 215) then n + 32 else n)"

definition toLowerCase :: "string \<Rightarrow> string" where
  "toLowerCase s = map (\<lambda>c. char_of (lower_code (code c))) s"

subsection \<open>Numbers\<close>

text \<open>
  A number of the source is an IEEE double. The amounts in centavos are integers, and
  a double holds every integer up to 2^53 = 9007199254740992 in magnitude; from there
  on the doubles are 2 apart, from 2^54 on they are 4 apart, and so forth. An amount
  is an \<open>int\<close> here, and the result of an addition, a subtraction or a multiplication
  of integers is the double nearest to the exact result, the one with the even
  significand when two are equally near: \<open>js_number\<close> of the exact result. The
  overflow of the source to \<open>Infinity\<close>, from 2^1024 on, is left out. A count is
  incremented at most once for a transaction, and an array has fewer than 2^32
  elements: the additions of counts are always exact.
\<close>

function ulp :: "int \<Rightarrow> int" where
  \<comment> \<open>the distance between the doubles around an integer \<open>a \<ge> 0\<close>\<close>
  "ulp a = (if a < 9007199254740992 then 1 else 2 * ulp (a div 2))"
  by pat_completeness auto
termination
  by (relation "measure nat") auto

declare ulp.simps [simp del]

definition round_half_even :: "int \<Rightarrow> int \<Rightarrow> int" where
  \<comment> \<open>the multiple of \<open>u\<close> nearest to \<open>a\<close>, the even multiple when \<open>a\<close> lies half way\<close>
  "round_half_even u a =
     (let q = a div u; r = a mod u
      in (if 2 * r < u \<or> (2 * r = u \<and> even q) then q else q + 1) * u)"

definition js_number :: "int \<Rightarrow> int" where
  \<comment> \<open>the double nearest to an integer\<close>
  "js_number n = sgn n * round_half_even (ulp \<bar>n\<bar>) \<bar>n\<bar>"

subsection \<open>parseInt\<close>

definition digit_val :: "char \<Rightarrow> int" where
  "digit_val c = int (code c) - 48"

definition hex_val :: "char \<Rightarrow> int option" where
  "hex_val c =
     (let n = code c in
      if 48 \<le> n \<and> n \<le> 57 then Some (int n - 48)
      else if 65 \<le> n \<and> n \<le> 70 then Some (int n - 55)
      else if 97 \<le> n \<and> n \<le> 102 then Some (int n - 87)
      else None)"

definition dec_value :: "string \<Rightarrow> int" where
  \<comment> \<open>the value of a string of decimal digits\<close>
  "dec_value ds = foldl (\<lambda>acc c. acc * 10 + digit_val c) 0 ds"

definition hex_value :: "string \<Rightarrow> int" where
  "hex_value ds = foldl (\<lambda>acc c. acc * 16 + the (hex_val c)) 0 ds"

definition parseInt :: "string \<Rightarrow> int option" where
  \<comment> \<open>the global \<open>parseInt\<close> without a radix: leading white space is skipped, one sign
     is read, a \<open>0x\<close> prefix selects radix 16, and the longest run of digits is the
     value, as a double; \<open>None\<close> is \<open>NaN\<close> (no digit at all)\<close>
  "parseInt s =
     (let t = dropWhile is_space s;
          neg = startsWith t ''-'';
          u = (if startsWith t ''-'' \<or> startsWith t ''+'' then drop 1 t else t);
          hex = (startsWith u ''0x'' \<or> startsWith u ''0X'');
          ds = (if hex then takeWhile (\<lambda>c. hex_val c \<noteq> None) (drop 2 u)
                else takeWhile is_digit u);
          v = (if hex then hex_value ds else dec_value ds)
      in if ds = [] then None else Some (js_number (if neg then - v else v)))"

definition or0 :: "int option \<Rightarrow> int" where
  \<comment> \<open>\<open>x || 0\<close> on a number: \<open>NaN\<close> and 0 both give 0\<close>
  "or0 x = (case x of None \<Rightarrow> 0 | Some n \<Rightarrow> n)"

section \<open>utils/parse.ts\<close>

subsection \<open>parseValorBrasileiro\<close>

fun strip_R :: "string \<Rightarrow> string" where
  \<comment> \<open>\<open>.replace(/R\\$?/g, '')\<close>: every \<open>R\<close>, with the \<open>$\<close> that follows it if any\<close>
  "strip_R [] = []"
| "strip_R (c # cs) =
     (if c = CHR ''R'' then
        (case cs of
           [] \<Rightarrow> []
         | d # ds \<Rightarrow> if d = CHR ''$'' then strip_R ds else strip_R cs)
      else c # strip_R cs)"

definition is_valor_char :: "char \<Rightarrow> bool" where
  \<comment> \<open>the characters that \<open>.replace(/[^\\d,.-]/g, '')\<close> keeps\<close>
  "is_valor_char c = (is_digit c \<or> c = CHR '','' \<or> c = CHR ''.'' \<or> c = CHR ''-'')"

definition remove_char :: "char \<Rightarrow> string \<Rightarrow> string" where
  \<comment> \<open>\<open>.replace(/c/g, '')\<close> for one character\<close>
  "remove_char c s = filter (\<lambda>x. x \<noteq> c) s"

definition limpar_valor :: "string \<Rightarrow> bool \<times> string" where
  \<comment> \<open>the first half of \<open>parseValorBrasileiro\<close>: trimming, the parenthesis convention and the
     removal of currency symbols; the result is \<open>(isNegativeParentheses, valorLimpo)\<close> as
     they stand before the sign is looked at\<close>
  "limpar_valor valor =
     (let t = trim valor;
          isNegativeParentheses = (startsWith t ''('' \<and> endsWith t '')'')
      in (isNegativeParentheses,
          trim (filter is_valor_char
                 (strip_R (if isNegativeParentheses then slice_1_m1 t else t)))))"

definition decimal_part :: "string \<Rightarrow> string" where
  \<comment> \<open>\<open>partes[1].padEnd(2, '0').substring(0, 2)\<close>\<close>
  "decimal_part p = substring (padEnd p 2 (CHR ''0'')) 0 2"

definition separar_partes :: "string \<Rightarrow> string \<times> string" where
  \<comment> \<open>the format detection of \<open>parseValorBrasileiro\<close>: \<open>(parteInteira, centavos)\<close>, both
     initialised to the empty string\<close>
  "separar_partes valorLimpo =
     (if CHR '','' \<in> set valorLimpo then
        (case split_on (CHR '','') valorLimpo of
           [p0, p1] \<Rightarrow>
             if length p1 \<le> 2 then (remove_char (CHR ''.'') p0, decimal_part p1)
             else ([], [])
         | _ \<Rightarrow> ([], []))
      else if CHR ''.'' \<in> set valorLimpo then
        (case split_on (CHR ''.'') valorLimpo of
           [p0, p1] \<Rightarrow>
             if length p1 \<le> 2 then (remove_char (CHR '','') p0, decimal_part p1)
             else (remove_char (CHR ''.'') valorLimpo, ''00'')
         | _ \<Rightarrow> (remove_char (CHR ''.'') valorLimpo, ''00''))
      else (valorLimpo, ''00''))"

definition montar_centavos :: "string \<times> string \<Rightarrow> int" where
  \<comment> \<open>\<open>(parseInt(parteInteira) || 0) * 100 + (parseInt(centavos) || 0)\<close>\<close>
  "montar_centavos pc =
     js_number (js_number (or0 (parseInt (fst pc)) * 100) + or0 (parseInt (snd pc)))"

definition parseValorBrasileiro :: "string \<Rightarrow> int" where
  \<comment> \<open>the string branch of the source (\<open>valorOriginal\<close> is a string); the result is the
     signed amount in centavos\<close>
  "parseValorBrasileiro valor =
     (if valor = [] then 0
      else
        (case limpar_valor valor of
           (isNegativeParentheses, t) \<Rightarrow>
             if startsWith t ''-'' \<or> isNegativeParentheses
             then - montar_centavos (separar_partes (remove_first (CHR ''-'') t))
             else montar_centavos (separar_partes t)))"

subsection \<open>parseDateBrasileira\<close>

definition is_iso_date :: "string \<Rightarrow> bool" where
  \<comment> \<open>\<open>/^\\d{4}-\\d{2}-\\d{2}$/.test(s)\<close>\<close>
  "is_iso_date s =
     (length s = 10 \<and> list_all is_digit (take 4 s) \<and> s ! 4 = CHR ''-''
      \<and> list_all is_digit (take 2 (drop 5 s)) \<and> s ! 7 = CHR ''-''
      \<and> list_all is_digit (drop 8 s))"

definition digits_between :: "nat \<Rightarrow> nat \<Rightarrow> string \<Rightarrow> bool" where
  \<comment> \<open>the group \<open>\\d{lo,hi}\<close> matched against a whole piece\<close>
  "digits_between lo hi s = (list_all is_digit s \<and> lo \<le> length s \<and> length s \<le> hi)"

definition match_slashes :: "nat \<Rightarrow> nat \<Rightarrow> string \<Rightarrow> (string \<times> string \<times> string) option" where
  \<comment> \<open>\<open>s.match(/^(\\d{1,2})\\/(\\d{1,2})\\/(\\d{lo,hi})$/)\<close>: the three groups, or no match\<close>
  "match_slashes lo hi s =
     (case split_on (CHR ''/'') s of
        [a, b, c] \<Rightarrow>
          if digits_between 1 2 a \<and> digits_between 1 2 b \<and> digits_between lo hi c
          then Some (a, b, c) else None
      | _ \<Rightarrow> None)"

definition ajustar_ano :: "string \<Rightarrow> string" where
  \<comment> \<open>a year of two digits becomes 20xx below 50 and 19xx from 50 on\<close>
  "ajustar_ano ano =
     (if length ano = 2
      then (if (case parseInt ano of None \<Rightarrow> False | Some anoNum \<Rightarrow> anoNum < 50)
            then ''20'' @ ano else ''19'' @ ano)
      else ano)"

definition iso_of :: "string \<Rightarrow> string \<Rightarrow> string \<Rightarrow> string" where
  \<comment> \<open>the template \<open>${ano}-${mes.padStart(2, '0')}-${dia.padStart(2, '0')}\<close>\<close>
  "iso_of ano mes dia =
     ano @ ''-'' @ padStart mes 2 (CHR ''0'') @ ''-'' @ padStart dia 2 (CHR ''0'')"

definition parseDateBrasileira :: "string \<Rightarrow> string \<Rightarrow> string" where
  \<comment> \<open>\<open>hoje\<close> stands for \<open>new Date().toISOString().split('T')[0]\<close>, the date of the clock\<close>
  "parseDateBrasileira hoje data =
     (if data = [] then hoje
      else
        let dataLimpa = trim data in
        if is_iso_date dataLimpa then dataLimpa
        else
          (case match_slashes 2 4 dataLimpa of
             Some (dia, mes, ano) \<Rightarrow> iso_of (ajustar_ano ano) mes dia
           | None \<Rightarrow>
               (case match_slashes 4 4 dataLimpa of
                  Some (mes, dia, ano) \<Rightarrow> iso_of ano mes dia
                | None \<Rightarrow> hoje)))"

subsection \<open>normalizeCategoria and parseCategoriaPath\<close>

definition nfd_code :: "nat \<Rightarrow> nat list" where
  \<comment> \<open>canonical decomposition (NFD) of a code unit below U+0100: an accented Latin-1
     letter becomes its base letter followed by a combining mark of U+0300 to U+036F\<close>
  "nfd_code n =
     (let lo = (224 \<le> n \<and> n \<le> 253);
          m = (if lo then n - 32 else n);
          sh = (if lo then 32 else 0)
      in if 192 \<le> m \<and> m \<le> 197 then [65 + sh, [768, 769, 770, 771, 776, 778] ! (m - 192)]
         else if m = 199 then [67 + sh, 807]
         else if 200 \<le> m \<and> m \<le> 203 then [69 + sh, [768, 769, 770, 776] ! (m - 200)]
         else if 204 \<le> m \<and> m \<le> 207 then [73 + sh, [768, 769, 770, 776] ! (m - 204)]
         else if m = 209 then [78 + sh, 771]
         else if 210 \<le> m \<and> m \<le> 214 then [79 + sh, [768, 769, 770, 771, 776] ! (m - 210)]
         else if 217 \<le> m \<and> m \<le> 220 then [85 + sh, [768, 769, 770, 776] ! (m - 217)]
         else if m = 221 then [89 + sh, 769]
         else if n = 255 then [121, 776]
         else [n])"

definition normalize_NFD :: "string \<Rightarrow> nat list" where
  \<comment> \<open>\<open>.normalize('NFD')\<close>; the result is a list of code units, since the combining marks
     lie above U+00FF\<close>
  "normalize_NFD s = concat (map (\<lambda>c. nfd_code (code c)) s)"

definition is_combining :: "nat \<Rightarrow> bool" where
  \<comment> \<open>the class \<open>[\\u0300-\\u036f]\<close>\<close>
  "is_combining n = (768 \<le> n \<and> n \<le> 879)"

definition is_categoria_code :: "nat \<Rightarrow> bool" where
  \<comment> \<open>the class \<open>[a-z0-9\\s]\<close>\<close>
  "is_categoria_code n = ((97 \<le> n \<and> n \<le> 122) \<or> (48 \<le> n \<and> n \<le> 57) \<or> is_space_code n)"

fun collapse_spaces :: "nat list \<Rightarrow> nat list" where
  \<comment> \<open>\<open>.replace(/\\s+/g, ' ')\<close>: every maximal run of white space becomes one space\<close>
  "collapse_spaces [] = []"
| "collapse_spaces [c] = [if is_space_code c then 32 else c]"
| "collapse_spaces (c # d # cs) =
     (if is_space_code c
      then (if is_space_code d then collapse_spaces (d # cs) else 32 # collapse_spaces (d # cs))
      else c # collapse_spaces (d # cs))"

definition normalizar_segmento :: "string \<Rightarrow> string" where
  \<comment> \<open>the method chain of \<open>normalizeCategoria\<close>, from \<open>.trim()\<close> to \<open>.trim()\<close>\<close>
  "normalizar_segmento categoria =
     map char_of
       (trim_by is_space_code
         (collapse_spaces
           (filter is_categoria_code
             (filter (\<lambda>n. \<not> is_combining n)
               (normalize_NFD (toLowerCase (trim categoria)))))))"

definition normalizeCategoria :: "string \<Rightarrow> string" where
  "normalizeCategoria categoria =
     (if categoria = [] then ''outros'' else normalizar_segmento categoria)"

definition is_path_separator :: "char \<Rightarrow> bool" where
  \<comment> \<open>the class \<open>[>\\/:]\<close>\<close>
  "is_path_separator c = (c = CHR ''>'' \<or> c = CHR ''/'' \<or> c = CHR '':'')"

definition parseCategoriaPath :: "string \<Rightarrow> string list" where
  "parseCategoriaPath categoria =
     (if categoria = [] then [''outros'']
      else
        let partes = filter (\<lambda>parte. length parte > 0)
                       (map normalizeCategoria (split_where is_path_separator categoria))
        in if length partes > 0 then partes else [''outros''])"

section \<open>types/financial.ts and services/openai.ts: building transactions\<close>

text \<open>The two literals of \<open>tipo\<close>: inflow and outflow.\<close>

datatype tipo = Entrada | Saida

text \<open>
  One record of the classifier's answer (\<open>BatchClassificationResult['transactions']\<close>);
  its fields carry the prefix \<open>raw_\<close>, since the canonical transaction has fields of
  the same names.
\<close>

record RawTransaction =
  raw_id :: int
  raw_tipo :: tipo
  raw_valorOriginal :: string
  raw_categoria :: string
  raw_empresa :: string
  raw_descricao :: string
  raw_data :: string

record TransactionData =
  id :: int
  tipo :: tipo
  valorCentavos :: int
  categoria :: string
  categoriaPath :: "string list"
  empresa :: string
  descricao :: string
  data :: string

definition marcador_fatura :: string where
  "marcador_fatura = ''pagamentos validos normais''"

definition passa_filtro :: "RawTransaction \<Rightarrow> bool" where
  \<comment> \<open>the predicate given to \<open>.filter\<close> in \<open>convertToTransactionData\<close>; \<open>raw.empresa || ''\<close>
     is the field itself, the empty string being the only falsy string\<close>
  "passa_filtro raw =
     (let empresa = toLowerCase (raw_empresa raw);
          descricao = toLowerCase (raw_descricao raw)
      in \<not> str_includes empresa marcador_fatura \<and> \<not> str_includes descricao marcador_fatura)"

definition or_default :: "string \<Rightarrow> string \<Rightarrow> string" where
  \<comment> \<open>\<open>s || d\<close> on strings\<close>
  "or_default s d = (if s = [] then d else s)"

definition nao_informado :: string where
  \<comment> \<open>the literal of the source, whose second letter is U+00E3 (a with tilde)\<close>
  "nao_informado = ''N'' @ [CHR 0xE3] @ ''o informado''"

definition sem_descricao :: string where
  \<comment> \<open>the literal of the source, with U+00E7 (c with cedilla) and U+00E3\<close>
  "sem_descricao = ''Sem descri'' @ [CHR 0xE7, CHR 0xE3] @ ''o''"

definition converter :: "string \<Rightarrow> RawTransaction \<Rightarrow> TransactionData" where
  \<comment> \<open>the function given to \<open>.map\<close> in \<open>convertToTransactionData\<close>\<close>
  "converter hoje raw =
     (let valor = parseValorBrasileiro (raw_valorOriginal raw) in
      \<lparr> id = raw_id raw,
        tipo = (if valor < 0 then Entrada else Saida),
        valorCentavos = \<bar>valor\<bar>,
        categoria = raw_categoria raw,
        categoriaPath = parseCategoriaPath (raw_categoria raw),
        empresa = or_default (raw_empresa raw) nao_informado,
        descricao = or_default (raw_descricao raw) sem_descricao,
        data = parseDateBrasileira hoje (raw_data raw) \<rparr>)"

definition convertToTransactionData :: "string \<Rightarrow> RawTransaction list \<Rightarrow> TransactionData list" where
  "convertToTransactionData hoje rawTransactions =
     map (converter hoje) (filter passa_filtro rawTransactions)"

section \<open>utils/aggregate.ts\<close>

subsection \<open>Arrays and maps of JavaScript\<close>

fun js_insert :: "('a \<Rightarrow> 'a \<Rightarrow> int) \<Rightarrow> 'a \<Rightarrow> 'a list \<Rightarrow> 'a list" where
  "js_insert cmp x [] = [x]"
| "js_insert cmp x (y # ys) = (if cmp x y \<le> 0 then x # y # ys else y # js_insert cmp x ys)"

definition js_sort :: "('a \<Rightarrow> 'a \<Rightarrow> int) \<Rightarrow> 'a list \<Rightarrow> 'a list" where
  \<comment> \<open>\<open>Array.prototype.sort\<close> with a comparison function: a stable sort, so elements that
     compare equal keep their order\<close>
  "js_sort cmp xs = foldr (js_insert cmp) xs []"

fun map_set :: "'k \<Rightarrow> 'v \<Rightarrow> ('k \<times> 'v) list \<Rightarrow> ('k \<times> 'v) list" where
  \<comment> \<open>\<open>Map.prototype.set\<close>, the map being the list of its entries in insertion order: a
     key that is present keeps its place, a new key goes to the end\<close>
  "map_set k v [] = [(k, v)]"
| "map_set k v ((a, b) # m) = (if a = k then (k, v) # m else (a, b) # map_set k v m)"

fun join :: "string \<Rightarrow> string list \<Rightarrow> string" where
  \<comment> \<open>\<open>Array.prototype.join\<close>\<close>
  "join sep [] = []"
| "join sep [x] = x"
| "join sep (x # y # ys) = x @ sep @ join sep (y # ys)"

fun localeCompare :: "string \<Rightarrow> string \<Rightarrow> int" where
  \<comment> \<open>\<open>a.localeCompare(b)\<close> as the order of the code units, which is the order of the
     collation on keys made of digits and one hyphen at a fixed place (\<open>YYYY-MM\<close>)\<close>
  "localeCompare [] [] = 0"
| "localeCompare [] (y # ys) = - 1"
| "localeCompare (x # xs) [] = 1"
| "localeCompare (x # xs) (y # ys) =
     (if code x < code y then - 1 else if code y < code x then 1 else localeCompare xs ys)"

subsection \<open>Aggregation by category\<close>

datatype tipo_categoria = entrada | saida

text \<open>
  \<open>CategoryAggregate\<close>; \<open>nome\<close>, \<open>caminho\<close> and \<open>tipo_cat\<close> are its fields \<open>categoria\<close>,
  \<open>categoriaPath\<close> and \<open>tipo\<close>. \<open>percentual\<close> is the exact quotient; the source computes
  it in double precision.
\<close>

record CategoryAggregate =
  nome :: string
  caminho :: "string list"
  totalCentavos :: int
  tipo_cat :: tipo_categoria
  transactionCount :: int
  percentual :: rat

text \<open>
  The value that \<open>categoryMap\<close> holds for a key: the fields \<open>entrada\<close>, \<open>saida\<close>,
  \<open>categoriaPath\<close> and \<open>transactionCount\<close> of the object literal.
\<close>

record CategoryValues =
  v_entrada :: int
  v_saida :: int
  v_categoriaPath :: "string list"
  v_transactionCount :: int

type_synonym category_map = "(string \<times> CategoryValues) list"

definition add_level :: "TransactionData \<Rightarrow> nat \<Rightarrow> category_map \<Rightarrow> category_map" where
  \<comment> \<open>the body of the loop over \<open>i\<close> in \<open>aggregateByCategory\<close>\<close>
  "add_level transaction i categoryMap =
     (let path = categoriaPath transaction;
          categoryKey = join '' > '' (take (i + 1) path);
          existing = (case map_of categoryMap categoryKey of
                        Some e \<Rightarrow> e
                      | None \<Rightarrow> \<lparr> v_entrada = 0, v_saida = 0,
                                  v_categoriaPath = take (i + 1) path,
                                  v_transactionCount = 0 \<rparr>);
          summed = (if tipo transaction = Entrada
                    then existing \<lparr> v_entrada :=
                           js_number (v_entrada existing + valorCentavos transaction) \<rparr>
                    else existing \<lparr> v_saida :=
                           js_number (v_saida existing + valorCentavos transaction) \<rparr>)
      in map_set categoryKey
           (summed \<lparr> v_transactionCount := v_transactionCount summed + 1 \<rparr>) categoryMap)"

definition add_transaction :: "TransactionData \<Rightarrow> category_map \<Rightarrow> category_map" where
  "add_transaction transaction categoryMap =
     fold (add_level transaction) [0 ..< length (categoriaPath transaction)] categoryMap"

definition build_category_map :: "TransactionData list \<Rightarrow> category_map" where
  \<comment> \<open>\<open>categoryMap\<close> after \<open>transactions.forEach\<close>\<close>
  "build_category_map transactions = fold add_transaction transactions []"

definition emit_category :: "int \<Rightarrow> int \<Rightarrow> string \<times> CategoryValues \<Rightarrow> CategoryAggregate list" where
  \<comment> \<open>what \<open>categoryMap.forEach\<close> pushes for one entry of the map\<close>
  "emit_category totalEntradas totalSaidas kv =
     (let categoryKey = fst kv; values = snd kv in
      (if v_entrada values > 0
       then [\<lparr> nome = categoryKey, caminho = v_categoriaPath values,
               totalCentavos = v_entrada values, tipo_cat = entrada,
               transactionCount = v_transactionCount values,
               percentual = (if totalEntradas > 0
                             then of_int (v_entrada values) / of_int totalEntradas * 100
                             else 0) \<rparr>]
       else []) @
      (if v_saida values > 0
       then [\<lparr> nome = categoryKey, caminho = v_categoriaPath values,
               totalCentavos = v_saida values, tipo_cat = saida,
               transactionCount = v_transactionCount values,
               percentual = (if totalSaidas > 0
                             then of_int (v_saida values) / of_int totalSaidas * 100
                             else 0) \<rparr>]
       else []))"

definition by_total_desc :: "CategoryAggregate \<Rightarrow> CategoryAggregate \<Rightarrow> int" where
  \<comment> \<open>\<open>(a, b) => b.totalCentavos - a.totalCentavos\<close>\<close>
  "by_total_desc a b = js_number (totalCentavos b - totalCentavos a)"

definition aggregateByCategory ::
    "TransactionData list \<Rightarrow> int \<Rightarrow> int \<Rightarrow> CategoryAggregate list" where
  "aggregateByCategory transactions totalEntradas totalSaidas =
     js_sort by_total_desc
       (concat (map (emit_category totalEntradas totalSaidas)
                    (build_category_map transactions)))"

subsection \<open>Aggregation by month\<close>

record MonthlyAggregate =
  mes :: string
  entradasCentavos :: int
  saidasCentavos :: int
  saldoCentavos :: int
  mes_transactionCount :: int

record MonthValues =
  m_entradas :: int
  m_saidas :: int
  m_count :: int

type_synonym month_map = "(string \<times> MonthValues) list"

definition add_month :: "TransactionData \<Rightarrow> month_map \<Rightarrow> month_map" where
  \<comment> \<open>the body of \<open>transactions.forEach\<close> in \<open>aggregateByMonth\<close>\<close>
  "add_month transaction monthMap =
     (let mes = substring (data transaction) 0 7;
          existing = (case map_of monthMap mes of
                        Some e \<Rightarrow> e
                      | None \<Rightarrow> \<lparr> m_entradas = 0, m_saidas = 0, m_count = 0 \<rparr>);
          summed = (if tipo transaction = Entrada
                    then existing \<lparr> m_entradas :=
                           js_number (m_entradas existing + valorCentavos transaction) \<rparr>
                    else existing \<lparr> m_saidas :=
                           js_number (m_saidas existing + valorCentavos transaction) \<rparr>)
      in map_set mes (summed \<lparr> m_count := m_count summed + 1 \<rparr>) monthMap)"

definition month_entry :: "string \<times> MonthValues \<Rightarrow> MonthlyAggregate" where
  "month_entry kv =
     \<lparr> mes = fst kv,
       entradasCentavos = m_entradas (snd kv),
       saidasCentavos = m_saidas (snd kv),
       saldoCentavos = js_number (m_entradas (snd kv) - m_saidas (snd kv)),
       mes_transactionCount = m_count (snd kv) \<rparr>"

definition by_mes_asc :: "MonthlyAggregate \<Rightarrow> MonthlyAggregate \<Rightarrow> int" where
  \<comment> \<open>\<open>(a, b) => a.mes.localeCompare(b.mes)\<close>\<close>
  "by_mes_asc a b = localeCompare (mes a) (mes b)"

definition aggregateByMonth :: "TransactionData list \<Rightarrow> MonthlyAggregate list" where
  "aggregateByMonth transactions =
     js_sort by_mes_asc (map month_entry (fold add_month transactions []))"

subsection \<open>aggregateTransactions\<close>

text \<open>
  \<open>AggregationResult\<close>; its field \<open>saldoCentavos\<close> is \<open>saldoTotalCentavos\<close> here, the name
  \<open>saldoCentavos\<close> being taken by the monthly aggregate.
\<close>

record AggregationResult =
  totalEntradasCentavos :: int
  totalSaidasCentavos :: int
  saldoTotalCentavos :: int
  categorias :: "CategoryAggregate list"
  meses :: "MonthlyAggregate list"
  topCategorias :: "CategoryAggregate list"
  mesMaisCaro :: string

definition by_saidas_desc :: "MonthlyAggregate \<Rightarrow> MonthlyAggregate \<Rightarrow> int" where
  \<comment> \<open>\<open>(a, b) => b.saidasCentavos - a.saidasCentavos\<close>\<close>
  "by_saidas_desc a b = js_number (saidasCentavos b - saidasCentavos a)"

definition total_of :: "tipo \<Rightarrow> TransactionData list \<Rightarrow> int" where
  \<comment> \<open>\<open>transactions.filter(t => t.tipo === k).reduce((sum, t) => sum + t.valorCentavos, 0)\<close>\<close>
  "total_of k transactions =
     foldl (\<lambda>sum t. js_number (sum + valorCentavos t)) 0
       (filter (\<lambda>t. tipo t = k) transactions)"

definition aggregateTransactions :: "string \<Rightarrow> TransactionData list \<Rightarrow> AggregationResult" where
  \<comment> \<open>\<open>mesAtual\<close> stands for \<open>new Date().toISOString().substring(0, 7)\<close>. The array \<open>meses\<close> is
     one object: \<open>meses.sort(...)\<close> in step 5 reorders it in place, and the result holds
     the array as that call left it. \<open>categorias\<close> is not touched by step 4, which sorts
     the fresh array that \<open>.filter\<close> returns.\<close>
  "aggregateTransactions mesAtual transactions =
     (let totalEntradas = total_of Entrada transactions;
          totalSaidas = total_of Saida transactions;
          cats = aggregateByCategory transactions totalEntradas totalSaidas;
          meses0 = aggregateByMonth transactions;
          top = take 5 (js_sort by_total_desc (filter (\<lambda>cat. tipo_cat cat = saida) cats));
          meses1 = (if length meses0 > 0 then js_sort by_saidas_desc meses0 else meses0)
      in \<lparr> totalEntradasCentavos = totalEntradas,
           totalSaidasCentavos = totalSaidas,
           saldoTotalCentavos = js_number (totalEntradas - totalSaidas),
           categorias = cats,
           meses = meses1,
           topCategorias = top,
           mesMaisCaro = (case meses1 of [] \<Rightarrow> mesAtual | m # _ \<Rightarrow> mes m) \<rparr>)"

subsection \<open>generateRecommendations\<close>

datatype tipo_recomendacao = otimizacao | oportunidade | alerta

text \<open>
  A recommendation with its \<open>tipo\<close> and \<open>titulo\<close>. The two other fields of the source,
  \<open>descricao\<close> and \<open>impacto\<close>, are formatted prose around the same numbers and decide
  nothing.
\<close>

record Recommendation =
  rec_tipo :: tipo_recomendacao
  titulo :: string

text \<open>
  The value of a division in double precision: a quotient, an infinity when only the
  divisor is zero, \<open>NaN\<close> for \<open>0 / 0\<close>. The quotient is kept exact, as is \<open>percentual\<close>.
\<close>

datatype jsnum = Finite rat | PosInfinity | NegInfinity | NaN

definition crescimento :: "int \<Rightarrow> int \<Rightarrow> jsnum" where
  \<comment> \<open>\<open>((ultimo - penultimo) / penultimo) * 100\<close>\<close>
  "crescimento ultimo penultimo =
     (let diferenca = js_number (ultimo - penultimo) in
      if penultimo \<noteq> 0 then Finite (of_int diferenca / of_int penultimo * 100)
      else if diferenca > 0 then PosInfinity
      else if diferenca < 0 then NegInfinity
      else NaN)"

fun js_greater :: "jsnum \<Rightarrow> rat \<Rightarrow> bool" where
  "js_greater (Finite q) c = (q > c)"
| "js_greater PosInfinity c = True"
| "js_greater NegInfinity c = False"
| "js_greater NaN c = False"

fun js_less :: "jsnum \<Rightarrow> rat \<Rightarrow> bool" where
  "js_less (Finite q) c = (q < c)"
| "js_less PosInfinity c = False"
| "js_less NegInfinity c = True"
| "js_less NaN c = False"

definition titulo_saldo_negativo :: string where
  \<comment> \<open>the title of the deficit alert, with U+00E7 and U+00E3\<close>
  "titulo_saldo_negativo =
     ''Aten'' @ [CHR 0xE7, CHR 0xE3] @ ''o ao Saldo Negativo''"

definition titulo_reducao :: string where
  \<comment> \<open>the title of the reduction compliment, with U+00E7 and U+00E3\<close>
  "titulo_reducao = ''Redu'' @ [CHR 0xE7, CHR 0xE3] @ ''o de Gastos''"

definition recomendacao_categoria :: "AggregationResult \<Rightarrow> Recommendation list" where
  \<comment> \<open>step 1: the largest outflow category\<close>
  "recomendacao_categoria aggregation =
     (case topCategorias aggregation of
        [] \<Rightarrow> []
      | maiorGasto # _ \<Rightarrow>
          if percentual maiorGasto > 40
          then [\<lparr> rec_tipo = otimizacao, titulo = ''Gastos Elevados em '' @ nome maiorGasto \<rparr>]
          else [])"

definition recomendacao_saldo :: "AggregationResult \<Rightarrow> Recommendation list" where
  \<comment> \<open>step 2: the balance\<close>
  "recomendacao_saldo aggregation =
     (if saldoTotalCentavos aggregation > 0
      then [\<lparr> rec_tipo = oportunidade, titulo = ''Excelente Controle Financeiro'' \<rparr>]
      else [\<lparr> rec_tipo = alerta, titulo = titulo_saldo_negativo \<rparr>])"

definition recomendacao_tendencia :: "AggregationResult \<Rightarrow> Recommendation list" where
  \<comment> \<open>step 3: the monthly trend, read from the last two elements of \<open>meses\<close>\<close>
  "recomendacao_tendencia aggregation =
     (let ms = meses aggregation in
      if length ms \<ge> 2 then
        (let ultimoMes = ms ! (length ms - 1);
             penultimoMes = ms ! (length ms - 2);
             crescimentoGastos =
               crescimento (saidasCentavos ultimoMes) (saidasCentavos penultimoMes)
         in if js_greater crescimentoGastos 15
            then [\<lparr> rec_tipo = alerta, titulo = ''Crescimento de Gastos'' \<rparr>]
            else if js_less crescimentoGastos (- 10)
            then [\<lparr> rec_tipo = oportunidade, titulo = titulo_reducao \<rparr>]
            else [])
      else [])"

definition generateRecommendations :: "AggregationResult \<Rightarrow> Recommendation list" where
  "generateRecommendations aggregation =
     take 3 (recomendacao_categoria aggregation @ recomendacao_saldo aggregation
             @ recomendacao_tendencia aggregation)"

section \<open>api/services/financial-analyzer.ts: the builder of the server\<close>

text \<open>
  The server has its own copies of the three parsers and of \<open>convertToTransactionData\<close>,
  under the same names; they carry the prefix \<open>api_\<close> here. The amount is parsed with
  \<open>parseFloat\<close> and is a \<open>jsnum\<close>: the value of a numeric string and its product by
  100 are kept exact, where the source holds the nearest doubles. \<open>NaN\<close> is not
  touched by that: every operation on \<open>NaN\<close> gives \<open>NaN\<close>.
\<close>

fun replace_first :: "char \<Rightarrow> char \<Rightarrow> string \<Rightarrow> string" where
  \<comment> \<open>\<open>s.replace(c, d)\<close> with a string pattern: only the first occurrence changes\<close>
  "replace_first c d [] = []"
| "replace_first c d (x # xs) = (if x = c then d # xs else x # replace_first c d xs)"

definition api_cleanValue :: "string \<Rightarrow> string" where
  \<comment> \<open>\<open>cleanValue\<close> as \<open>parseFloat\<close> receives it: \<open>R\<close>, \<open>$\<close> and white space removed, then
     the comma made the decimal point\<close>
  "api_cleanValue valor =
     (let cleanValue = filter (\<lambda>c. c \<noteq> CHR ''R'' \<and> c \<noteq> CHR ''$'' \<and> \<not> is_space c) valor
      in if CHR '','' \<in> set cleanValue \<and> CHR ''.'' \<in> set cleanValue
         then replace_first (CHR '','') (CHR ''.'') (remove_char (CHR ''.'') cleanValue)
         else if CHR '','' \<in> set cleanValue
         then replace_first (CHR '','') (CHR ''.'') cleanValue
         else cleanValue)"

definition exponent_part :: "string \<Rightarrow> int" where
  \<comment> \<open>the exponent that a decimal literal carries after its digits: \<open>e\<close> or \<open>E\<close>, a sign
     or none, and at least one digit; 0 when there is no such part\<close>
  "exponent_part r =
     (if startsWith r ''e'' \<or> startsWith r ''E'' then
        (let x = drop 1 r;
             y = (if startsWith x ''-'' \<or> startsWith x ''+'' then drop 1 x else x);
             ds = takeWhile is_digit y
         in if ds = [] then 0
            else if startsWith x ''-'' then - dec_value ds else dec_value ds)
      else 0)"

definition parseFloat :: "string \<Rightarrow> jsnum" where
  \<comment> \<open>the global \<open>parseFloat\<close>: leading white space is skipped, and the longest prefix
     that is a decimal literal gives the value; \<open>NaN\<close> when no prefix is one\<close>
  "parseFloat s =
     (let t = dropWhile is_space s;
          neg = startsWith t ''-'';
          u = (if startsWith t ''-'' \<or> startsWith t ''+'' then drop 1 t else t)
      in if startsWith u ''Infinity'' then (if neg then NegInfinity else PosInfinity)
         else
           (let ip = takeWhile is_digit u;
                r1 = dropWhile is_digit u;
                fp = (if startsWith r1 ''.'' then takeWhile is_digit (drop 1 r1) else []);
                r2 = (if startsWith r1 ''.'' then dropWhile is_digit (drop 1 r1) else r1);
                e = exponent_part r2 - int (length fp);
                m = (if neg then - dec_value (ip @ fp) else dec_value (ip @ fp))
            in if ip = [] \<and> fp = [] then NaN
               else if 0 \<le> e then Finite (of_int m * 10 ^ nat e)
               else Finite (of_int m / 10 ^ nat (- e))))"

fun js_times :: "jsnum \<Rightarrow> rat \<Rightarrow> jsnum" where
  \<comment> \<open>\<open>x * c\<close> for a constant \<open>c > 0\<close>\<close>
  "js_times (Finite q) c = Finite (q * c)"
| "js_times PosInfinity c = PosInfinity"
| "js_times NegInfinity c = NegInfinity"
| "js_times NaN c = NaN"

fun Math_round :: "jsnum \<Rightarrow> jsnum" where
  \<comment> \<open>the nearest integer, the larger one half way between two\<close>
  "Math_round (Finite q) = Finite (of_int \<lfloor>q + 1 / 2\<rfloor>)"
| "Math_round PosInfinity = PosInfinity"
| "Math_round NegInfinity = NegInfinity"
| "Math_round NaN = NaN"

fun Math_abs :: "jsnum \<Rightarrow> jsnum" where
  "Math_abs (Finite q) = Finite \<bar>q\<bar>"
| "Math_abs PosInfinity = PosInfinity"
| "Math_abs NegInfinity = PosInfinity"
| "Math_abs NaN = NaN"

definition api_parseValorBrasileiro :: "string \<Rightarrow> jsnum" where
  "api_parseValorBrasileiro valor =
     (if valor = [] then Finite 0
      else Math_round (js_times (parseFloat (api_cleanValue valor)) 100))"

text \<open>
  A \<open>Date\<close> object is known by the call that made it: \<open>new Date()\<close>, the time of the
  clock, or \<open>new Date(s)\<close> for a string.
\<close>

datatype Date = Date_now | Date_of string

fun first_match :: "(string \<Rightarrow> bool) \<Rightarrow> nat \<Rightarrow> string \<Rightarrow> string option" where
  \<comment> \<open>\<open>s.match(re)\<close> for a pattern that matches \<open>n\<close> characters: the leftmost match\<close>
  "first_match pat n [] = None"
| "first_match pat n (c # cs) =
     (if pat (take n (c # cs)) then Some (take n (c # cs)) else first_match pat n cs)"

definition is_dmy :: "char \<Rightarrow> string \<Rightarrow> bool" where
  \<comment> \<open>two digits, the separator, two digits, the separator, four digits\<close>
  "is_dmy sep w =
     (length w = 10 \<and> list_all is_digit (take 2 w) \<and> w ! 2 = sep
      \<and> list_all is_digit (take 2 (drop 3 w)) \<and> w ! 5 = sep
      \<and> list_all is_digit (drop 6 w))"

definition ymd_of :: "string \<Rightarrow> string" where
  \<comment> \<open>the template \<open>${match[3]}-${match[2]}-${match[1]}\<close>\<close>
  "ymd_of w = drop 6 w @ ''-'' @ take 2 (drop 3 w) @ ''-'' @ take 2 w"

definition api_parseDateBrasileira :: "string \<Rightarrow> Date" where
  "api_parseDateBrasileira dateStr =
     (if dateStr = [] then Date_now
      else
        (case first_match is_iso_date 10 dateStr of
           Some w \<Rightarrow> Date_of w
         | None \<Rightarrow>
             (case first_match (is_dmy (CHR ''/'')) 10 dateStr of
                Some w \<Rightarrow> Date_of (ymd_of w)
              | None \<Rightarrow>
                  (case first_match (is_dmy (CHR ''-'')) 10 dateStr of
                     Some w \<Rightarrow> Date_of (ymd_of w)
                   | None \<Rightarrow> Date_of dateStr))))"

fun split_str :: "string \<Rightarrow> string \<Rightarrow> string list" where
  \<comment> \<open>\<open>s.split(sep)\<close> for a separator string\<close>
  "split_str [] s = map (\<lambda>c. [c]) s"
| "split_str (d # ds) [] = [[]]"
| "split_str (d # ds) (c # cs) =
     (if startsWith (c # cs) (d # ds) then [] # split_str (d # ds) (drop (length ds) cs)
      else (case split_str (d # ds) cs of
              [] \<Rightarrow> [[c]]
            | p # ps \<Rightarrow> (c # p) # ps))"

definition api_parseCategoriaPath :: "string \<Rightarrow> string list" where
  "api_parseCategoriaPath categoria' =
     (if categoria' = [] then [''Outros'']
      else map trim (split_str '' > '' categoria'))"

record ApiTransactionData =
  api_id :: int
  api_tipo :: tipo
  api_valorCentavos :: jsnum
  api_categoria :: string
  api_categoriaPath :: "string list"
  api_empresa :: string
  api_descricao :: string
  api_data :: Date

definition api_converter :: "RawTransaction \<Rightarrow> ApiTransactionData" where
  \<comment> \<open>the function given to \<open>.map\<close> in the server's \<open>convertToTransactionData\<close>\<close>
  "api_converter raw =
     (let valorCentavos = api_parseValorBrasileiro (raw_valorOriginal raw) in
      \<lparr> api_id = raw_id raw,
        api_tipo = (if js_less valorCentavos 0 then Entrada else Saida),
        api_valorCentavos = Math_abs valorCentavos,
        api_categoria = raw_categoria raw,
        api_categoriaPath = api_parseCategoriaPath (raw_categoria raw),
        api_empresa = or_default (raw_empresa raw) ''Not specified'',
        api_descricao = or_default (raw_descricao raw) ''No description'',
        api_data = api_parseDateBrasileira (raw_data raw) \<rparr>)"

definition api_convertToTransactionData :: "RawTransaction list \<Rightarrow> ApiTransactionData list" where
  \<comment> \<open>the predicate given to \<open>.filter\<close> is that of the client, word for word\<close>
  "api_convertToTransactionData rawTransactions =
     map api_converter (filter passa_filtro rawTransactions)"

section \<open>Notions used in the statements\<close>

fun nao_negativo :: "jsnum \<Rightarrow> bool" where
  \<comment> \<open>\<open>x >= 0\<close> on a number of the source\<close>
  "nao_negativo (Finite q) = (0 \<le> q)"
| "nao_negativo PosInfinity = True"
| "nao_negativo NegInfinity = False"
| "nao_negativo NaN = False"

definition is_ascii_symbol :: "char \<Rightarrow> bool" where
  \<comment> \<open>an ASCII character that is neither a letter nor a digit: white space, punctuation,
     control characters\<close>
  "is_ascii_symbol c =
     (code c < 128 \<and> \<not> (65 \<le> code c \<and> code c \<le> 90) \<and> \<not> (97 \<le> code c \<and> code c \<le> 122)
      \<and> \<not> (48 \<le> code c \<and> code c \<le> 57))"

definition contem_sem_caixa :: "string \<Rightarrow> string \<Rightarrow> bool" where
  \<comment> \<open>the text contains the phrase when the case of letters is ignored: at some
     position the text reads as the phrase once both are put in lower case\<close>
  "contem_sem_caixa texto frase =
     list_ex (\<lambda>i. toLowerCase (take (length frase) (drop i texto)) = toLowerCase frase)
       [0 ..< Suc (length texto)]"

definition registro_excluido :: "RawTransaction \<Rightarrow> bool" where
  \<comment> \<open>the counterparty or the description contains the marker of a bill payment\<close>
  "registro_excluido raw =
     (contem_sem_caixa (raw_empresa raw) marcador_fatura
      \<or> contem_sem_caixa (raw_descricao raw) marcador_fatura)"

definition tem_prefixo :: "'a list \<Rightarrow> 'a list \<Rightarrow> bool" where
  \<comment> \<open>\<open>q\<close> is a prefix of \<open>p\<close>\<close>
  "tem_prefixo q p = (take (length q) p = q)"

definition saidas_de :: "AggregationResult \<Rightarrow> CategoryAggregate list" where
  \<comment> \<open>the outflow entries of the category aggregates, in the order of \<open>categorias\<close>\<close>
  "saidas_de r = filter (\<lambda>c. tipo_cat c = saida) (categorias r)"

definition sem_separador :: "TransactionData \<Rightarrow> bool" where
  \<comment> \<open>no segment of the path contains the character of the separator \<open>>\<close>, as is the
     case of every normalised segment (lower-case letters, digits and spaces)\<close>
  "sem_separador t = (\<forall>s\<in>set (categoriaPath t). CHR ''>'' \<notin> set s)"

definition transacao_valida :: "TransactionData \<Rightarrow> bool" where
  \<comment> \<open>the invariants of a transaction in the data model: an amount that is not
     negative and a path of at least one normalised segment\<close>
  "transacao_valida t = (0 \<le> valorCentavos t \<and> categoriaPath t \<noteq> [] \<and> sem_separador t)"

definition total_nivel1 :: "tipo_categoria \<Rightarrow> CategoryAggregate list \<Rightarrow> int" where
  \<comment> \<open>the sum of \<open>totalCentavos\<close> over the entries of one kind whose path has one segment\<close>
  "total_nivel1 k cats =
     sum_list (map totalCentavos (filter (\<lambda>c. tipo_cat c = k \<and> length (caminho c) = 1) cats))"

definition soma_js :: "int list \<Rightarrow> int" where
  \<comment> \<open>the sum of a list of amounts as \<open>reduce\<close> computes it: from the left, starting at
     0, every partial sum being a double\<close>
  "soma_js xs = foldl (\<lambda>sum x. js_number (sum + x)) 0 xs"

definition soma_tipo :: "tipo \<Rightarrow> TransactionData list \<Rightarrow> int" where
  \<comment> \<open>the sum of the amounts of the transactions of one kind, as an integer\<close>
  "soma_tipo k ts = sum_list (map valorCentavos (filter (\<lambda>t. tipo t = k) ts))"

definition conta_prefixo :: "string list \<Rightarrow> TransactionData list \<Rightarrow> int" where
  \<comment> \<open>the number of transactions, of either kind, whose path has the prefix \<open>q\<close>\<close>
  "conta_prefixo q ts = int (length (filter (\<lambda>t. tem_prefixo q (categoriaPath t)) ts))"

section \<open>Invariants of the category map\<close>

definition chave_ok :: "category_map \<Rightarrow> bool" where
  \<comment> \<open>the keys are distinct, and every key is the joined path that its value stores, a
     path that is not empty and has no separator character inside a segment\<close>
  "chave_ok m =
     (distinct (map fst m) \<and>
      (\<forall>kv\<in>set m. fst kv = join '' > '' (v_categoriaPath (snd kv)) \<and>
         v_categoriaPath (snd kv) \<noteq> [] \<and>
         (\<forall>s\<in>set (v_categoriaPath (snd kv)). CHR ''>'' \<notin> set s)))"

definition valores_ok :: "category_map \<Rightarrow> bool" where
  "valores_ok m = (\<forall>kv\<in>set m. 0 \<le> v_entrada (snd kv) \<and> 0 \<le> v_saida (snd kv))"

definition origem_ok :: "TransactionData set \<Rightarrow> category_map \<Rightarrow> bool" where
  \<comment> \<open>every stored path is a prefix, not empty, of the path of a transaction of \<open>T\<close>\<close>
  "origem_ok T m =
     (\<forall>kv\<in>set m. v_categoriaPath (snd kv) \<noteq> [] \<and>
        (\<exists>t\<in>T. tem_prefixo (v_categoriaPath (snd kv)) (categoriaPath t)))"

definition soma_nivel1 :: "(CategoryValues \<Rightarrow> int) \<Rightarrow> category_map \<Rightarrow> int" where
  \<comment> \<open>the sum of one of the two totals over the entries whose path has one segment\<close>
  "soma_nivel1 sel m =
     sum_list (map (\<lambda>kv. if length (v_categoriaPath (snd kv)) = 1 then sel (snd kv) else 0) m)"

definition v_total :: "tipo \<Rightarrow> CategoryValues \<Rightarrow> int" where
  \<comment> \<open>the total that a value of the map holds for one kind\<close>
  "v_total k v = (if k = Entrada then v_entrada v else v_saida v)"

definition contagem :: "category_map \<Rightarrow> string \<Rightarrow> int" where
  \<comment> \<open>the count stored under a key, 0 for a key that is absent\<close>
  "contagem m k = (case map_of m k of None \<Rightarrow> 0 | Some v \<Rightarrow> v_transactionCount v)"

definition novo_valor :: "TransactionData \<Rightarrow> nat \<Rightarrow> category_map \<Rightarrow> CategoryValues" where
  \<comment> \<open>the value that \<open>add_level\<close> stores\<close>
  "novo_valor t i m =
     (let existing = (case map_of m (join '' > '' (take (i + 1) (categoriaPath t))) of
                        Some e \<Rightarrow> e
                      | None \<Rightarrow> \<lparr> v_entrada = 0, v_saida = 0,
                                  v_categoriaPath = take (i + 1) (categoriaPath t),
                                  v_transactionCount = 0 \<rparr>)
      in \<lparr> v_entrada = (if tipo t = Entrada
                         then js_number (v_entrada existing + valorCentavos t)
                         else v_entrada existing),
           v_saida = (if tipo t = Entrada
                      then v_saida existing
                      else js_number (v_saida existing + valorCentavos t)),
           v_categoriaPath = v_categoriaPath existing,
           v_transactionCount = v_transactionCount existing + 1 \<rparr>)"

section \<open>Inputs used in the examples\<close>

definition transacao :: "int \<Rightarrow> tipo \<Rightarrow> int \<Rightarrow> string list \<Rightarrow> string \<Rightarrow> TransactionData" where
  \<comment> \<open>a transaction with the fields that aggregation reads; the texts are left empty\<close>
  "transacao i k v p d =
     \<lparr> id = i, tipo = k, valorCentavos = v, categoria = join '' > '' p, categoriaPath = p,
       empresa = [], descricao = [], data = d \<rparr>"

definition exemplo_dois_meses :: "TransactionData list" where
  \<comment> \<open>R$ 100,00 spent in January 2024 and R$ 200,00 in February 2024\<close>
  "exemplo_dois_meses =
     [transacao 1 Saida 10000 [''moradia''] ''2024-01-15'',
      transacao 2 Saida 20000 [''moradia''] ''2024-02-15'']"

definition exemplo_tendencia :: "TransactionData list" where
  \<comment> \<open>R$ 150,00 spent in March 2024 and R$ 450,00 in April 2024\<close>
  "exemplo_tendencia =
     [transacao 1 Saida 15000 [''lazer''] ''2024-03-05'',
      transacao 2 Saida 45000 [''lazer''] ''2024-04-20'']"

definition registro ::
    "int \<Rightarrow> string \<Rightarrow> string \<Rightarrow> string \<Rightarrow> string \<Rightarrow> string \<Rightarrow> RawTransaction" where
  \<comment> \<open>a record of the classifier; its hint for \<open>tipo\<close> is always the outflow here\<close>
  "registro i valor cat emp desc dt =
     \<lparr> raw_id = i, raw_tipo = Saida, raw_valorOriginal = valor, raw_categoria = cat,
       raw_empresa = emp, raw_descricao = desc, raw_data = dt \<rparr>"

definition exemplo_lote :: "RawTransaction list" where
  \<comment> \<open>the batch of five rows of the repository's notes on signs and totals; the fifth is
     the payment of the card bill\<close>
  "exemplo_lote =
     [registro 1 ''100.00'' ''Alimentacao'' ''Extra'' ''Compra supermercado'' ''15/01/2024'',
      registro 2 ''-20.00'' ''Alimentacao'' ''Extra'' ''Estorno produto'' ''16/01/2024'',
      registro 3 ''1200.00'' ''Moradia'' ''Imobiliaria'' ''Aluguel'' ''17/01/2024'',
      registro 4 ''-80.00'' ''Combustivel'' ''Posto'' ''Reembolso'' ''18/01/2024'',
      registro 5 ''500.00'' ''Outros'' ''Pagamentos Validos Normais'' ''Pagamento fatura''
        ''19/01/2024'']"

definition exemplo_uber :: "TransactionData list" where
  \<comment> \<open>the ride of the source's own test data\<close>
  "exemplo_uber = [transacao 3 Saida 2500 [''transporte'', ''apps'', ''uber''] ''2024-01-10'']"

definition exemplo_top :: "TransactionData list" where
  "exemplo_top =
     [transacao 3 Saida 2500 [''transporte'', ''apps'', ''uber''] ''2024-01-10'',
      transacao 4 Saida 37900 [''moradia'', ''aluguel'', ''housi''] ''2024-01-03'']"

definition exemplo_misto :: "TransactionData list" where
  \<comment> \<open>a purchase and its partial refund under one category, a rent and a ride\<close>
  "exemplo_misto =
     [transacao 1 Saida 10000 [''alimentacao''] ''2024-01-15'',
      transacao 2 Entrada 2000 [''alimentacao''] ''2024-01-16'',
      transacao 3 Saida 120000 [''moradia''] ''2024-01-01'',
      transacao 4 Saida 2500 [''transporte'', ''apps'', ''uber''] ''2024-01-10'']"

definition exemplo_invalido :: "RawTransaction list" where
  \<comment> \<open>one record whose amount is no number\<close>
  "exemplo_invalido =
     [registro 1 ''abc'' ''Alimentacao'' ''Extra'' ''Compra supermercado'' ''15/01/2024'']"

definition exemplo_arredondado :: "TransactionData list" where
  \<comment> \<open>an outflow of 2^53 centavos under one category, and two outflows of one centavo
     under another\<close>
  "exemplo_arredondado =
     [transacao 1 Saida 9007199254740992 [''imoveis''] ''2024-01-05'',
      transacao 2 Saida 1 [''taxas''] ''2024-01-06'',
      transacao 3 Saida 1 [''taxas''] ''2024-01-07'']"

section \<open>Numbers\<close>

lemma ulp_pos: "0 < ulp a"
  by (induction a rule: ulp.induct) (subst ulp.simps, simp)

lemma ulp_le: "1 \<le> a \<Longrightarrow> ulp a \<le> a"
proof (induction a rule: ulp.induct)
  case (1 a)
  show ?case
  proof (cases "a < 9007199254740992")
    case True
    with 1 show ?thesis by (subst ulp.simps) simp
  next
    case False
    then have "ulp (a div 2) \<le> a div 2" using 1 by simp
    with False show ?thesis by (subst ulp.simps) simp
  qed
qed

lemma round_half_even_pos:
  assumes "0 < u" "u \<le> a"
  shows "0 < round_half_even u a"
proof -
  have "0 < a div u" using assms by (simp add: pos_imp_zdiv_pos_iff)
  then show ?thesis using assms(1) by (simp add: round_half_even_def Let_def)
qed

lemma js_number_exact: "\<bar>n\<bar> \<le> 9007199254740992 \<Longrightarrow> js_number n = n"
proof (cases "\<bar>n\<bar> < 9007199254740992")
  case True
  then have "ulp \<bar>n\<bar> = 1" by (subst ulp.simps) simp
  then show ?thesis by (simp add: js_number_def round_half_even_def mult_sgn_abs)
next
  case False
  assume "\<bar>n\<bar> \<le> 9007199254740992"
  with False have a: "\<bar>n\<bar> = 9007199254740992" by simp
  have "ulp 9007199254740992 = 2 * ulp 4503599627370496" by (subst ulp.simps) simp
  also have "ulp 4503599627370496 = 1" by (subst ulp.simps) simp
  finally have "ulp \<bar>n\<bar> = 2" using a by simp
  then have "round_half_even (ulp \<bar>n\<bar>) \<bar>n\<bar> = \<bar>n\<bar>"
    unfolding a by (simp add: round_half_even_def)
  then show ?thesis by (simp add: js_number_def mult_sgn_abs)
qed

lemma js_number_tie: "js_number 9007199254740993 = 9007199254740992"
proof -
  have "ulp 9007199254740993 = 2 * ulp 4503599627370496" by (subst ulp.simps) simp
  also have "ulp 4503599627370496 = 1" by (subst ulp.simps) simp
  finally have "ulp 9007199254740993 = 2" by simp
  then show ?thesis by (simp add: js_number_def round_half_even_def)
qed

lemma js_number_sgn: "sgn (js_number n) = sgn n"
proof (cases "n = 0")
  case True
  then show ?thesis by (simp add: js_number_def)
next
  case False
  then have "1 \<le> \<bar>n\<bar>" by simp
  then have "0 < round_half_even (ulp \<bar>n\<bar>) \<bar>n\<bar>"
    using ulp_pos ulp_le by (intro round_half_even_pos) simp_all
  then show ?thesis by (simp add: js_number_def sgn_mult)
qed

lemma js_number_signs:
  "js_number n \<le> 0 \<longleftrightarrow> n \<le> 0" "0 \<le> js_number n \<longleftrightarrow> 0 \<le> n"
  "js_number n < 0 \<longleftrightarrow> n < 0" "0 < js_number n \<longleftrightarrow> 0 < n"
  using js_number_sgn [of n] by (auto simp: sgn_if split: if_splits)

section \<open>Evaluation\<close>

lemmas string_eval =
  trim_def trim_by_def is_space_def is_space_code_def code_def startsWith_def endsWith_def
  slice_1_m1_def split_on_def padEnd_def padStart_def substring_def is_digit_def

lemmas valor_eval =
  limpar_valor_def is_valor_char_def remove_char_def decimal_part_def separar_partes_def
  montar_centavos_def or0_def parseInt_def dec_value_def digit_val_def hex_val_def
  js_number_exact

lemmas aggregate_eval =
  aggregateTransactions_def total_of_def aggregateByCategory_def aggregateByMonth_def
  build_category_map_def add_transaction_def add_level_def emit_category_def by_total_desc_def
  add_month_def month_entry_def by_mes_asc_def by_saidas_desc_def js_sort_def substring_def
  code_def transacao_def js_number_exact

section \<open>The value parser\<close>

text \<open>
  C3. The source's own table of tests expects \<open>parseValorBrasileiro("1,234.56")\<close> to be
  123456 and \<open>parseValorBrasileiro("69.99")\<close> to be 6999. The second holds. The first
  does not: a string with a comma goes to the comma branch, \<open>split(',')\<close> gives the two
  pieces \<open>1\<close> and \<open>234.56\<close>, the second piece is longer than two characters, nothing is
  assigned, and the result is 0.
\<close>

theorem parseValorBrasileiro_us_thousands:
  "parseValorBrasileiro ''1,234.56'' = 0 \<and> parseValorBrasileiro ''69.99'' = 6999"
proof
  have limpo: "limpar_valor ''1,234.56'' = (False, ''1,234.56'')"
    by (simp add: string_eval valor_eval)
  have partes: "separar_partes ''1,234.56'' = ([], [])"
    by (simp add: string_eval valor_eval)
  have zero: "montar_centavos ([], []) = 0"
    by (simp add: string_eval valor_eval)
  show "parseValorBrasileiro ''1,234.56'' = 0"
    by (simp add: parseValorBrasileiro_def limpo partes zero startsWith_def)
next
  have limpo: "limpar_valor ''69.99'' = (False, ''69.99'')"
    by (simp add: string_eval valor_eval)
  have partes: "separar_partes ''69.99'' = (''69'', ''99'')"
    by (simp add: string_eval valor_eval)
  have soma: "montar_centavos (''69'', ''99'') = 6999"
    by (simp add: string_eval valor_eval)
  show "parseValorBrasileiro ''69.99'' = 6999"
    by (simp add: parseValorBrasileiro_def limpo partes soma startsWith_def)
qed

section \<open>The order of the months\<close>

text \<open>
  C1. \<open>aggregateByMonth\<close> returns the months in strictly ascending order of their key
  (lemma \<open>aggregateByMonth_ascending\<close> below), but \<open>aggregateTransactions\<close> then sorts that
  same array by outflow, largest first, to read the most expensive month, and returns
  the array as reordered (lemma \<open>meses_sorted_by_outflow\<close>). With R$ 100,00 spent in
  January and R$ 200,00 in February the result lists February before January.
\<close>

theorem meses_reordered_by_outflow:
  "map mes (aggregateByMonth exemplo_dois_meses) = [''2024-01'', ''2024-02''] \<and>
   map mes (meses (aggregateTransactions ''2024-03'' exemplo_dois_meses))
     = [''2024-02'', ''2024-01'']"
  by (simp add: exemplo_dois_meses_def aggregate_eval Let_def)

text \<open>
  C4. The trend step reads the last two elements of \<open>meses\<close>, which
  \<open>aggregateTransactions\<close> has left sorted by outflow, largest first: they are the two
  months with the smallest outflow, the last one being the smallest. With R$ 150,00
  spent in March and R$ 450,00 in April, spending tripled from the earlier to the later
  month, yet April is taken for the month before March and the step reports a reduction
  (of two thirds) instead of a growth.
\<close>

theorem tendencia_reads_outflow_order:
  "map mes (meses (aggregateTransactions ''2024-05'' exemplo_tendencia))
     = [''2024-04'', ''2024-03''] \<and>
   recomendacao_tendencia (aggregateTransactions ''2024-05'' exemplo_tendencia)
     = [\<lparr> rec_tipo = oportunidade, titulo = titulo_reducao \<rparr>] \<and>
   map titulo (generateRecommendations (aggregateTransactions ''2024-05'' exemplo_tendencia))
     = [''Gastos Elevados em lazer'', titulo_saldo_negativo, titulo_reducao]"
proof -
  have ms: "meses (aggregateTransactions ''2024-05'' exemplo_tendencia)
      = [\<lparr> mes = ''2024-04'', entradasCentavos = 0, saidasCentavos = 45000,
            saldoCentavos = - 45000, mes_transactionCount = 1 \<rparr>,
         \<lparr> mes = ''2024-03'', entradasCentavos = 0, saidasCentavos = 15000,
            saldoCentavos = - 15000, mes_transactionCount = 1 \<rparr>]"
    by (simp add: exemplo_tendencia_def aggregate_eval Let_def)
  have top: "topCategorias (aggregateTransactions ''2024-05'' exemplo_tendencia)
      = [\<lparr> nome = ''lazer'', caminho = [''lazer''], totalCentavos = 60000, tipo_cat = saida,
            transactionCount = 2, percentual = 100 \<rparr>]"
    by (simp add: exemplo_tendencia_def aggregate_eval Let_def)
  have saldo: "saldoTotalCentavos (aggregateTransactions ''2024-05'' exemplo_tendencia) = - 60000"
    by (simp add: exemplo_tendencia_def aggregate_eval Let_def)
  have tend: "recomendacao_tendencia (aggregateTransactions ''2024-05'' exemplo_tendencia)
      = [\<lparr> rec_tipo = oportunidade, titulo = titulo_reducao \<rparr>]"
    by (simp add: recomendacao_tendencia_def ms crescimento_def js_number_exact)
  have cat: "recomendacao_categoria (aggregateTransactions ''2024-05'' exemplo_tendencia)
      = [\<lparr> rec_tipo = otimizacao, titulo = ''Gastos Elevados em lazer'' \<rparr>]"
    by (simp add: recomendacao_categoria_def top)
  have sal: "recomendacao_saldo (aggregateTransactions ''2024-05'' exemplo_tendencia)
      = [\<lparr> rec_tipo = alerta, titulo = titulo_saldo_negativo \<rparr>]"
    by (simp add: recomendacao_saldo_def saldo)
  show ?thesis
    by (simp add: ms tend generateRecommendations_def cat sal)
qed

section \<open>The date parser\<close>

lemma digit_not_space: "is_digit c \<Longrightarrow> \<not> is_space c"
  by (auto simp: is_digit_def is_space_def is_space_code_def)

lemma digit_not_slash: "is_digit c \<Longrightarrow> c \<noteq> CHR ''/''"
  by (auto simp: is_digit_def code_def)

lemma digit_not_hyphen: "is_digit c \<Longrightarrow> c \<noteq> CHR ''-''"
  by (auto simp: is_digit_def code_def)

lemma digit_not_plus: "is_digit c \<Longrightarrow> c \<noteq> CHR ''+''"
  by (auto simp: is_digit_def code_def)

lemma digit_not_x: "is_digit c \<Longrightarrow> c \<noteq> CHR ''x'' \<and> c \<noteq> CHR ''X''"
  by (auto simp: is_digit_def code_def)

lemma trim_by_id:
  assumes "s \<noteq> []" "\<not> ws (hd s)" "\<not> ws (last s)"
  shows "trim_by ws s = s"
proof -
  from assms have a: "dropWhile ws s = s" by (cases s) auto
  from assms have "rev s \<noteq> []" "\<not> ws (hd (rev s))" by (auto simp: hd_rev)
  then have "dropWhile ws (rev s) = rev s" by (cases "rev s") auto
  with a show ?thesis by (simp add: trim_by_def)
qed

lemma split_where_no_sep: "\<forall>c\<in>set s. \<not> sep c \<Longrightarrow> split_where sep s = [s]"
  by (induction s) auto

lemma split_where_append:
  "\<forall>c\<in>set a. \<not> sep c \<Longrightarrow> sep x \<Longrightarrow> split_where sep (a @ x # rest) = a # split_where sep rest"
  by (induction a) auto

lemma parseInt_digits:
  assumes "list_all is_digit s" "s \<noteq> []"
  shows "parseInt s = Some (js_number (dec_value s))"
proof -
  obtain c cs where s: "s = c # cs" using assms(2) by (cases s) auto
  with assms have c: "is_digit c" and cs: "list_all is_digit cs" by auto
  have d: "dropWhile is_space s = s" using c s digit_not_space by simp
  have tw: "takeWhile is_digit s = s" using assms(1) by (simp add: list_all_iff takeWhile_eq_all_conv)
  have nothex: "\<not> startsWith s ''0x''" "\<not> startsWith s ''0X''"
    using cs s digit_not_x by (cases cs; auto simp: startsWith_def)+
  have nosign: "\<not> startsWith s ''-''" "\<not> startsWith s ''+''"
    using c s digit_not_hyphen digit_not_plus by (auto simp: startsWith_def)
  show ?thesis
    using assms(2) by (simp add: parseInt_def d tw nothex nosign Let_def)
qed

lemma digit_val_range: "is_digit c \<Longrightarrow> 0 \<le> digit_val c \<and> digit_val c \<le> 9"
  by (auto simp: is_digit_def digit_val_def)

lemma dec_value_two_digits:
  assumes "list_all is_digit s" "length s = 2"
  shows "0 \<le> dec_value s \<and> dec_value s \<le> 99"
proof -
  from assms(2) obtain a b where s: "s = [a, b]"
    by (cases s; cases "tl s") auto
  with assms(1) have "is_digit a" "is_digit b" by simp_all
  then show ?thesis
    using digit_val_range [of a] digit_val_range [of b] by (simp add: s dec_value_def)
qed

lemma iso_date_trim:
  assumes "is_iso_date s"
  shows "s \<noteq> [] \<and> trim s = s"
proof -
  from assms have len: "length s = 10" by (simp add: is_iso_date_def)
  then have ne: "s \<noteq> []" by auto
  from assms have t4: "list_all is_digit (take 4 s)" and d8: "list_all is_digit (drop 8 s)"
    by (simp_all add: is_iso_date_def)
  have "(take 4 s) ! 0 = s ! 0" by simp
  moreover have "is_digit ((take 4 s) ! 0)"
  proof -
    have "0 < length (take 4 s)" using len by simp
    with t4 show ?thesis unfolding list_all_length by blast
  qed
  ultimately have "is_digit (s ! 0)" by simp
  then have "is_digit (hd s)" using ne by (simp add: hd_conv_nth)
  then have h: "\<not> is_space (hd s)" by (rule digit_not_space)
  have "(drop 8 s) ! 1 = s ! 9" using len by simp
  moreover have "is_digit ((drop 8 s) ! 1)"
  proof -
    have "1 < length (drop 8 s)" using len by simp
    with d8 show ?thesis unfolding list_all_length by blast
  qed
  ultimately have "is_digit (s ! 9)" by simp
  then have "is_digit (last s)" using ne len by (simp add: last_conv_nth)
  then have l: "\<not> is_space (last s)" by (rule digit_not_space)
  show ?thesis using ne h l by (simp add: trim_def trim_by_id)
qed

lemma iso_date_has_hyphen:
  assumes "is_iso_date s"
  shows "CHR ''-'' \<in> set s"
proof -
  from assms have "length s = 10" and e: "s ! 4 = CHR ''-''" by (auto simp: is_iso_date_def)
  then have "4 < length s" by simp
  then have "s ! 4 \<in> set s" by (rule nth_mem)
  with e show ?thesis by simp
qed

lemma slashed_date:
  assumes d: "digits_between 1 2 dd" and m: "digits_between 1 2 mm"
    and a: "digits_between lo hi yy" and lo: "1 \<le> lo"
  shows "trim (dd @ ''/'' @ mm @ ''/'' @ yy) = dd @ ''/'' @ mm @ ''/'' @ yy"
    and "\<not> is_iso_date (dd @ ''/'' @ mm @ ''/'' @ yy)"
    and "match_slashes lo hi (dd @ ''/'' @ mm @ ''/'' @ yy) = Some (dd, mm, yy)"
proof -
  let ?s = "dd @ ''/'' @ mm @ ''/'' @ yy"
  from d m a lo have ne: "dd \<noteq> []" "mm \<noteq> []" "yy \<noteq> []"
    by (auto simp: digits_between_def)
  from d m a have dg: "\<forall>c\<in>set dd. is_digit c" "\<forall>c\<in>set mm. is_digit c" "\<forall>c\<in>set yy. is_digit c"
    by (auto simp: digits_between_def list_all_iff)
  have "hd ?s = hd dd" using ne by simp
  then have h: "\<not> is_space (hd ?s)" using dg ne digit_not_space by (metis hd_in_set)
  have "last ?s = last yy" using ne by simp
  then have l: "\<not> is_space (last ?s)" using dg ne digit_not_space by (metis last_in_set)
  show "trim ?s = ?s" using h l ne by (simp add: trim_def trim_by_id)
  have "CHR ''-'' \<notin> set ?s" using dg digit_not_hyphen by auto
  then show "\<not> is_iso_date ?s" using iso_date_has_hyphen by blast
  have ns: "\<forall>c\<in>set dd. \<not> c = CHR ''/''" "\<forall>c\<in>set mm. \<not> c = CHR ''/''" "\<forall>c\<in>set yy. \<not> c = CHR ''/''"
    using dg digit_not_slash by auto
  have "split_on (CHR ''/'') ?s = [dd, mm, yy]"
    unfolding split_on_def
    using split_where_append [of dd "\<lambda>x. x = CHR ''/''" "CHR ''/''" "mm @ ''/'' @ yy"]
      split_where_append [of mm "\<lambda>x. x = CHR ''/''" "CHR ''/''" yy]
      split_where_no_sep [of yy "\<lambda>x. x = CHR ''/''"] ns
    by simp
  then show "match_slashes lo hi ?s = Some (dd, mm, yy)"
    using d m a by (simp add: match_slashes_def)
qed

lemma parseDateBrasileira_slashed:
  assumes "digits_between 1 2 dd" "digits_between 1 2 mm" "digits_between 2 4 yy"
  shows "parseDateBrasileira hoje (dd @ ''/'' @ mm @ ''/'' @ yy)
        = (if length yy = 2 then (if dec_value yy < 50 then ''20'' else ''19'') @ yy else yy)
          @ ''-'' @ padStart mm 2 (CHR ''0'') @ ''-'' @ padStart dd 2 (CHR ''0'')"
proof -
  let ?s = "dd @ ''/'' @ mm @ ''/'' @ yy"
  from assms have facts:
    "trim ?s = ?s" "\<not> is_iso_date ?s" "match_slashes 2 4 ?s = Some (dd, mm, yy)"
    using slashed_date [of dd mm 2 4 yy] by simp_all
  from assms have "list_all is_digit yy" "yy \<noteq> []" by (auto simp: digits_between_def)
  then have pi: "parseInt yy = Some (js_number (dec_value yy))" by (rule parseInt_digits)
  have two: "js_number (dec_value yy) = dec_value yy" if "length yy = 2"
    using dec_value_two_digits [OF \<open>list_all is_digit yy\<close> that]
    by (intro js_number_exact) simp
  have "parseDateBrasileira hoje ?s = iso_of (ajustar_ano yy) mm dd"
    using facts by (simp add: parseDateBrasileira_def)
  then show ?thesis
    using two by (simp add: iso_of_def ajustar_ano_def pi)
qed

lemma digits_examples:
  "digits_between 1 2 ''15''" "digits_between 1 2 ''01''" "digits_between 2 4 ''2024''"
  "digits_between 1 2 ''12''" "digits_between 2 4 ''23''"
  by (simp_all add: digits_between_def is_digit_def code_def)

text \<open>
  C9. \<open>parseDateBrasileira\<close> returns an input of the shape \<open>YYYY-MM-DD\<close> unchanged. For an
  input \<open>D/M/Y\<close> with one or two digits of day, one or two digits of month and two to
  four digits of year it returns year, month and day joined by hyphens, day and month
  padded with a zero to two digits, a year of two digits \<open>y\<close> prefixed with \<open>20\<close> when
  its value is below 50 and with \<open>19\<close> otherwise (a year of three or four digits is
  kept). In particular \<open>15/01/2024\<close> gives \<open>2024-01-15\<close> and \<open>01/12/23\<close> gives
  \<open>2023-12-01\<close>. The date of the clock, \<open>hoje\<close>, plays no part.
\<close>

theorem parseDateBrasileira_formats:
  "(is_iso_date s \<longrightarrow> parseDateBrasileira hoje s = s) \<and>
   (digits_between 1 2 dd \<and> digits_between 1 2 mm \<and> digits_between 2 4 yy \<longrightarrow>
      parseDateBrasileira hoje (dd @ ''/'' @ mm @ ''/'' @ yy)
        = (if length yy = 2 then (if dec_value yy < 50 then ''20'' else ''19'') @ yy else yy)
          @ ''-'' @ padStart mm 2 (CHR ''0'') @ ''-'' @ padStart dd 2 (CHR ''0'')) \<and>
   parseDateBrasileira hoje ''15/01/2024'' = ''2024-01-15'' \<and>
   parseDateBrasileira hoje ''01/12/23'' = ''2023-12-01''"
proof (intro conjI impI)
  assume "is_iso_date s"
  then show "parseDateBrasileira hoje s = s"
    using iso_date_trim [of s] by (simp add: parseDateBrasileira_def)
next
  assume "digits_between 1 2 dd \<and> digits_between 1 2 mm \<and> digits_between 2 4 yy"
  then show "parseDateBrasileira hoje (dd @ ''/'' @ mm @ ''/'' @ yy)
        = (if length yy = 2 then (if dec_value yy < 50 then ''20'' else ''19'') @ yy else yy)
          @ ''-'' @ padStart mm 2 (CHR ''0'') @ ''-'' @ padStart dd 2 (CHR ''0'')"
    using parseDateBrasileira_slashed by blast
next
  show "parseDateBrasileira hoje ''15/01/2024'' = ''2024-01-15''"
    using parseDateBrasileira_slashed [of "''15''" "''01''" "''2024''" hoje] digits_examples
    by (simp add: padStart_def)
next
  have v: "dec_value ''23'' = 23"
    by (simp add: dec_value_def digit_val_def code_def)
  show "parseDateBrasileira hoje ''01/12/23'' = ''2023-12-01''"
    using parseDateBrasileira_slashed [of "''01''" "''12''" "''23''" hoje] digits_examples v
    by (simp add: padStart_def)
qed

theorem parseDateBrasileira_formats_witness:
  "is_iso_date ''2025-08-03'' \<and>
   parseDateBrasileira ''2026-01-01'' ''2025-08-03'' = ''2025-08-03'' \<and>
   digits_between 1 2 ''5'' \<and> digits_between 1 2 ''3'' \<and> digits_between 2 4 ''99'' \<and>
   parseDateBrasileira ''2026-01-01'' ''5/3/99'' = ''1999-03-05''"
proof -
  have iso: "is_iso_date ''2025-08-03''"
    by (simp add: is_iso_date_def is_digit_def code_def)
  have d: "digits_between 1 2 ''5''" "digits_between 1 2 ''3''" "digits_between 2 4 ''99''"
    by (simp_all add: digits_between_def is_digit_def code_def)
  have v: "dec_value ''99'' = 99"
    by (simp add: dec_value_def digit_val_def code_def)
  have r0: "parseDateBrasileira ''2026-01-01'' ''2025-08-03'' = ''2025-08-03''"
    using iso parseDateBrasileira_formats [of "''2025-08-03''" "''2026-01-01''"] by blast
  have r1: "parseDateBrasileira ''2026-01-01'' ''5/3/99'' = ''1999-03-05''"
    using parseDateBrasileira_formats [of "[]" "''2026-01-01''" "''5''" "''3''" "''99''"] d v
    by (simp add: padStart_def)
  show ?thesis using iso d r0 r1 by simp
qed

section \<open>The category normaliser\<close>

lemma trim_by_subset: "set (trim_by ws s) \<subseteq> set s"
proof -
  have "set (trim_by ws s) = set (dropWhile ws (rev (dropWhile ws s)))"
    by (simp add: trim_by_def)
  also have "\<dots> \<subseteq> set (rev (dropWhile ws s))" by (rule set_dropWhileD [THEN subsetI])
  also have "\<dots> \<subseteq> set s" using set_dropWhileD by fastforce
  finally show ?thesis .
qed

lemma trim_by_all:
  assumes "list_all ws xs"
  shows "trim_by ws xs = []"
proof -
  from assms have "\<forall>x\<in>set xs. ws x" by (simp only: list_all_iff)
  then have d: "dropWhile ws xs = []" by (simp only: dropWhile_eq_Nil_conv)
  show ?thesis unfolding trim_by_def d by simp
qed

lemma collapse_spaces_all:
  "list_all is_space_code xs \<Longrightarrow> list_all is_space_code (collapse_spaces xs)"
  by (induction xs rule: collapse_spaces.induct) (auto simp: is_space_code_def)

lemma symbol_lower: "is_ascii_symbol c \<Longrightarrow> char_of (lower_code (code c)) = c"
  by (auto simp: is_ascii_symbol_def lower_code_def code_def)

lemma symbol_nfd: "is_ascii_symbol c \<Longrightarrow> nfd_code (code c) = [code c]"
  by (auto simp: is_ascii_symbol_def nfd_code_def Let_def)

lemma symbol_categoria: "is_ascii_symbol c \<Longrightarrow> is_categoria_code (code c) \<Longrightarrow> is_space_code (code c)"
  by (auto simp: is_ascii_symbol_def is_categoria_code_def)

lemma symbols_normalize:
  assumes "\<forall>c\<in>set t. is_ascii_symbol c"
  shows "normalize_NFD (toLowerCase t) = map code t"
  using assms
  by (induction t) (simp_all add: normalize_NFD_def toLowerCase_def symbol_lower symbol_nfd)

lemma symbols_segment:
  assumes "list_all is_ascii_symbol s"
  shows "normalizar_segmento s = []"
proof -
  let ?t = "trim s"
  have sym: "\<forall>c\<in>set ?t. is_ascii_symbol c"
    using assms trim_by_subset [of is_space s] by (auto simp: trim_def list_all_iff)
  let ?ys = "filter is_categoria_code (filter (\<lambda>n. \<not> is_combining n) (map code ?t))"
  have "list_all is_space_code ?ys"
    using sym symbol_categoria by (auto simp: list_all_iff)
  then have "list_all is_space_code (collapse_spaces ?ys)" by (rule collapse_spaces_all)
  then have "trim_by is_space_code (collapse_spaces ?ys) = []" by (rule trim_by_all)
  then show ?thesis
    by (simp add: normalizar_segmento_def symbols_normalize [OF sym])
qed

lemma parseCategoriaPath_nonempty:
  "parseCategoriaPath s \<noteq> [] \<and> [] \<notin> set (parseCategoriaPath s)"
  by (auto simp: parseCategoriaPath_def Let_def)

lemma parseCategoriaPath_pieces:
  assumes "s \<noteq> []"
  shows "parseCategoriaPath s =
     (let partes = filter (\<lambda>p. p \<noteq> [])
                     (map normalizeCategoria (split_where is_path_separator s))
      in if partes = [] then [''outros''] else partes)"
  using assms by (simp add: parseCategoriaPath_def Let_def)

lemma parseCategoriaPath_symbols:
  assumes "s \<noteq> []" "list_all is_ascii_symbol s" "\<not> list_ex is_path_separator s"
  shows "parseCategoriaPath s = [''outros'']"
proof -
  have "split_where is_path_separator s = [s]"
    using assms(3) by (intro split_where_no_sep) (simp add: list_ex_iff)
  moreover have "normalizeCategoria s = []"
    using assms(1,2) symbols_segment by (simp add: normalizeCategoria_def)
  ultimately show ?thesis using assms(1) by (simp add: parseCategoriaPath_def)
qed

lemma segmento_letra:
  "normalizar_segmento ''a '' = ''a''" "normalizar_segmento ''a'' = ''a''"
  "normalizar_segmento ''b'' = ''b''"
proof -
  have t: "trim ''a '' = ''a''" "trim ''a'' = ''a''" "trim ''b'' = ''b''"
    by (simp_all add: string_eval)
  have l: "toLowerCase ''a'' = ''a''" "toLowerCase ''b'' = ''b''"
    by (simp_all add: toLowerCase_def lower_code_def code_def char_of_eq_iff)
  have n: "normalize_NFD ''a'' = [97]" "normalize_NFD ''b'' = [98]"
    by (simp_all add: normalize_NFD_def nfd_code_def code_def)
  show "normalizar_segmento ''a '' = ''a''" "normalizar_segmento ''a'' = ''a''"
    "normalizar_segmento ''b'' = ''b''"
    by (simp_all add: normalizar_segmento_def t l n trim_by_def is_categoria_code_def
        is_combining_def is_space_code_def char_of_eq_iff)
qed

lemma parseCategoriaPath_exemplos:
  "parseCategoriaPath ''a > !!!'' = [''a'']"
  "parseCategoriaPath ''a>>b'' = [''a'', ''outros'', ''b'']"
proof -
  have p: "split_where is_path_separator ''a > !!!'' = [''a '', '' !!!'']"
    "split_where is_path_separator ''a>>b'' = [''a'', [], ''b'']"
    by (simp_all add: is_path_separator_def)
  have "list_all is_ascii_symbol '' !!!''" by (simp add: is_ascii_symbol_def code_def)
  then have e: "normalizar_segmento '' !!!'' = []" by (rule symbols_segment)
  show "parseCategoriaPath ''a > !!!'' = [''a'']"
    unfolding parseCategoriaPath_def p
    by (simp add: normalizeCategoria_def segmento_letra e)
  show "parseCategoriaPath ''a>>b'' = [''a'', ''outros'', ''b'']"
    unfolding parseCategoriaPath_def p
    by (simp add: normalizeCategoria_def segmento_letra)
qed

text \<open>
  C6, as the code has it. \<open>normalizeCategoria\<close> returns \<open>outros\<close> for the empty input
  string. For every other input it returns the segment normalisation itself, hence the
  empty string when that normalisation yields the empty string, as it does for every
  input made only of ASCII white space and punctuation. \<open>parseCategoriaPath\<close> splits
  the input at the separators, applies \<open>normalizeCategoria\<close> to every piece, drops the
  pieces that come out empty, and returns the path of the one segment \<open>outros\<close> when
  the input is empty or no piece is left: \<open>a > !!!\<close> gives the path of the one segment
  \<open>a\<close>, an input of ASCII white space and punctuation without a separator gives the
  path \<open>outros\<close>, and the empty piece of \<open>a>>b\<close> becomes \<open>outros\<close>.
\<close>

theorem normalizeCategoria_fallback:
  "normalizeCategoria [] = ''outros'' \<and>
   (s \<noteq> [] \<longrightarrow> normalizeCategoria s = normalizar_segmento s) \<and>
   (s \<noteq> [] \<and> normalizar_segmento s = [] \<longrightarrow> normalizeCategoria s = []) \<and>
   (s \<noteq> [] \<and> list_all is_ascii_symbol s \<longrightarrow>
      normalizar_segmento s = [] \<and> normalizeCategoria s = []) \<and>
   parseCategoriaPath [] = [''outros''] \<and>
   (s \<noteq> [] \<longrightarrow>
      parseCategoriaPath s =
        (let partes = filter (\<lambda>p. p \<noteq> [])
                        (map normalizeCategoria (split_where is_path_separator s))
         in if partes = [] then [''outros''] else partes)) \<and>
   (s \<noteq> [] \<and> list_all is_ascii_symbol s \<and> \<not> list_ex is_path_separator s \<longrightarrow>
      parseCategoriaPath s = [''outros'']) \<and>
   parseCategoriaPath ''a > !!!'' = [''a''] \<and>
   parseCategoriaPath ''a>>b'' = [''a'', ''outros'', ''b'']"
proof -
  have a: "normalizeCategoria [] = ''outros''" by (simp add: normalizeCategoria_def)
  have b: "normalizeCategoria s = normalizar_segmento s" if "s \<noteq> []"
    using that by (simp add: normalizeCategoria_def)
  have c: "normalizar_segmento s = []" if "list_all is_ascii_symbol s"
    using that by (rule symbols_segment)
  have d: "parseCategoriaPath [] = [''outros'']" by (simp add: parseCategoriaPath_def)
  show ?thesis
    using a b c d parseCategoriaPath_pieces [of s] parseCategoriaPath_symbols [of s]
      parseCategoriaPath_exemplos
    by simp
qed

lemma sym_ex: "list_all is_ascii_symbol '' - !''" "\<not> list_ex is_path_separator '' - !''"
  by (simp_all add: is_ascii_symbol_def is_path_separator_def code_def)

theorem normalizeCategoria_fallback_witness:
  "'' - !'' \<noteq> [] \<and> list_all is_ascii_symbol '' - !'' \<and>
   \<not> list_ex is_path_separator '' - !'' \<and>
   normalizar_segmento '' - !'' = [] \<and> normalizeCategoria '' - !'' = [] \<and>
   parseCategoriaPath '' - !'' = [''outros'']"
proof -
  have ne: "'' - !'' \<noteq> []" by simp
  note inst = normalizeCategoria_fallback [of "'' - !''"]
  have n: "normalizar_segmento '' - !'' = [] \<and> normalizeCategoria '' - !'' = []"
    using inst ne sym_ex(1) by blast
  have p: "parseCategoriaPath '' - !'' = [''outros'']"
    using inst ne sym_ex by blast
  from ne sym_ex n p show ?thesis by blast
qed

text \<open>
  C6 as stated fails: the segment normalisation of \<open>!!!\<close> is the empty string, and
  \<open>normalizeCategoria\<close> returns that empty string, not \<open>outros\<close>.
\<close>

theorem normalizeCategoria_empty_result:
  "normalizar_segmento ''!!!'' = [] \<and> normalizeCategoria ''!!!'' \<noteq> ''outros''"
proof -
  have t: "trim ''!!!'' = ''!!!''" by (simp add: string_eval)
  have l: "toLowerCase ''!!!'' = ''!!!''"
    by (simp add: toLowerCase_def lower_code_def code_def char_of_eq_iff)
  have n: "normalize_NFD ''!!!'' = [33, 33, 33]"
    by (simp add: normalize_NFD_def nfd_code_def code_def)
  have s: "normalizar_segmento ''!!!'' = []"
    by (simp add: normalizar_segmento_def t l n trim_by_def
        is_categoria_code_def is_combining_def is_space_code_def)
  then show ?thesis by (simp add: normalizeCategoria_def)
qed

section \<open>Building transactions\<close>

lemma str_includes_iff:
  "str_includes s p \<longleftrightarrow> (\<exists>i\<le>length s. take (length p) (drop i s) = p)"
proof (induction s)
  case Nil
  show ?case by auto
next
  case (Cons c cs)
  have "(\<exists>i\<le>length (c # cs). take (length p) (drop i (c # cs)) = p)
      \<longleftrightarrow> take (length p) (c # cs) = p \<or> (\<exists>j\<le>length cs. take (length p) (drop j cs) = p)"
  proof
    assume "\<exists>i\<le>length (c # cs). take (length p) (drop i (c # cs)) = p"
    then obtain i where i: "i \<le> length (c # cs)" "take (length p) (drop i (c # cs)) = p" by blast
    show "take (length p) (c # cs) = p \<or> (\<exists>j\<le>length cs. take (length p) (drop j cs) = p)"
    proof (cases i)
      case 0
      with i show ?thesis by simp
    next
      case (Suc j)
      with i have "j \<le> length cs" "take (length p) (drop j cs) = p" by simp_all
      then show ?thesis by blast
    qed
  next
    assume "take (length p) (c # cs) = p \<or> (\<exists>j\<le>length cs. take (length p) (drop j cs) = p)"
    then show "\<exists>i\<le>length (c # cs). take (length p) (drop i (c # cs)) = p"
    proof
      assume "take (length p) (c # cs) = p"
      then have "0 \<le> length (c # cs) \<and> take (length p) (drop 0 (c # cs)) = p" by simp
      then show ?thesis by blast
    next
      assume "\<exists>j\<le>length cs. take (length p) (drop j cs) = p"
      then obtain j where "j \<le> length cs" "take (length p) (drop j cs) = p" by blast
      then have "Suc j \<le> length (c # cs) \<and> take (length p) (drop (Suc j) (c # cs)) = p" by simp
      then show ?thesis by blast
    qed
  qed
  with Cons show ?case by (simp add: startsWith_def)
qed

lemma contem_sem_caixa_iff:
  "contem_sem_caixa texto frase \<longleftrightarrow> str_includes (toLowerCase texto) (toLowerCase frase)"
proof -
  have "contem_sem_caixa texto frase
      \<longleftrightarrow> (\<exists>i\<le>length texto. toLowerCase (take (length frase) (drop i texto)) = toLowerCase frase)"
  proof -
    have "set [0 ..< Suc (length texto)] = {i. i \<le> length texto}" by auto
    then show ?thesis unfolding contem_sem_caixa_def list_ex_iff by blast
  qed
  also have "\<dots> \<longleftrightarrow> (\<exists>i\<le>length (toLowerCase texto).
      take (length (toLowerCase frase)) (drop i (toLowerCase texto)) = toLowerCase frase)"
    by (simp add: toLowerCase_def take_map drop_map)
  finally show ?thesis by (simp add: str_includes_iff)
qed

lemma marcador_lower: "toLowerCase marcador_fatura = marcador_fatura"
  by (simp add: marcador_fatura_def toLowerCase_def lower_code_def code_def char_of_eq_iff)

lemma registro_excluido_iff: "registro_excluido raw \<longleftrightarrow> \<not> passa_filtro raw"
  using marcador_lower
  by (simp add: registro_excluido_def passa_filtro_def contem_sem_caixa_iff Let_def)

lemma valor_100: "parseValorBrasileiro ''100.00'' = 10000"
proof -
  have a: "limpar_valor ''100.00'' = (False, ''100.00'')"
    by (simp add: string_eval valor_eval)
  have b: "separar_partes ''100.00'' = (''100'', ''00'')"
    by (simp add: string_eval valor_eval)
  have c: "montar_centavos (''100'', ''00'') = 10000"
    by (simp add: string_eval valor_eval)
  show ?thesis
    by (simp add: parseValorBrasileiro_def a b c startsWith_def)
qed

lemma valor_m20: "parseValorBrasileiro ''-20.00'' = - 2000"
proof -
  have a: "limpar_valor ''-20.00'' = (False, ''-20.00'')"
    by (simp add: string_eval valor_eval)
  have b: "separar_partes ''20.00'' = (''20'', ''00'')"
    by (simp add: string_eval valor_eval)
  have c: "montar_centavos (''20'', ''00'') = 2000"
    by (simp add: string_eval valor_eval)
  show ?thesis
    by (simp add: parseValorBrasileiro_def a b c startsWith_def)
qed

lemma valor_1200: "parseValorBrasileiro ''1200.00'' = 120000"
proof -
  have a: "limpar_valor ''1200.00'' = (False, ''1200.00'')"
    by (simp add: string_eval valor_eval)
  have b: "separar_partes ''1200.00'' = (''1200'', ''00'')"
    by (simp add: string_eval valor_eval)
  have c: "montar_centavos (''1200'', ''00'') = 120000"
    by (simp add: string_eval valor_eval)
  show ?thesis
    by (simp add: parseValorBrasileiro_def a b c startsWith_def)
qed

lemma valor_m80: "parseValorBrasileiro ''-80.00'' = - 8000"
proof -
  have a: "limpar_valor ''-80.00'' = (False, ''-80.00'')"
    by (simp add: string_eval valor_eval)
  have b: "separar_partes ''80.00'' = (''80'', ''00'')"
    by (simp add: string_eval valor_eval)
  have c: "montar_centavos (''80'', ''00'') = 8000"
    by (simp add: string_eval valor_eval)
  show ?thesis
    by (simp add: parseValorBrasileiro_def a b c startsWith_def)
qed


lemma valor_2_53:
  "parseValorBrasileiro ''90071992547409.92'' = 9007199254740992"
  "parseValorBrasileiro ''90071992547409.93'' = 9007199254740992"
proof -
  have a: "limpar_valor ''90071992547409.92'' = (False, ''90071992547409.92'')"
    "limpar_valor ''90071992547409.93'' = (False, ''90071992547409.93'')"
    by (simp_all add: string_eval valor_eval)
  have b: "separar_partes ''90071992547409.92'' = (''90071992547409'', ''92'')"
    "separar_partes ''90071992547409.93'' = (''90071992547409'', ''93'')"
    by (simp_all add: string_eval valor_eval)
  have c: "montar_centavos (''90071992547409'', ''92'') = 9007199254740992"
    "montar_centavos (''90071992547409'', ''93'') = 9007199254740992"
    by (simp_all add: string_eval valor_eval js_number_tie)
  show "parseValorBrasileiro ''90071992547409.92'' = 9007199254740992"
    "parseValorBrasileiro ''90071992547409.93'' = 9007199254740992"
    by (simp_all add: parseValorBrasileiro_def a b c startsWith_def)
qed

lemma totals_of_aggregate:
  "totalEntradasCentavos (aggregateTransactions m ts) = total_of Entrada ts"
  "totalSaidasCentavos (aggregateTransactions m ts) = total_of Saida ts"
  "saldoTotalCentavos (aggregateTransactions m ts)
     = js_number (total_of Entrada ts - total_of Saida ts)"
  by (simp_all add: aggregateTransactions_def Let_def)

lemma passa_exemplos:
  "passa_filtro (registro i v c ''Extra'' ''Compra supermercado'' d)"
  "passa_filtro (registro i v c ''Extra'' ''Estorno produto'' d)"
  "passa_filtro (registro i v c ''Imobiliaria'' ''Aluguel'' d)"
  "passa_filtro (registro i v c ''Posto'' ''Reembolso'' d)"
  "\<not> passa_filtro (registro i v c ''Pagamentos Validos Normais'' ''Pagamento fatura'' d)"
  by (simp_all add: passa_filtro_def registro_def marcador_fatura_def toLowerCase_def
      lower_code_def code_def startsWith_def char_of_eq_iff)

lemma foldl_js_number_exact:
  fixes a :: int
  assumes "\<forall>x\<in>set xs. 0 \<le> x" "0 \<le> a" "a + sum_list xs \<le> 9007199254740992"
  shows "foldl (\<lambda>sum x. js_number (sum + x)) a xs = a + sum_list xs"
  using assms
proof (induction xs arbitrary: a)
  case Nil
  show ?case by simp
next
  case (Cons x xs)
  have r: "0 \<le> sum_list xs" using Cons.prems(1) by (intro sum_list_nonneg) simp
  have x: "0 \<le> x" using Cons.prems(1) by simp
  have "js_number (a + x) = a + x"
    using Cons.prems(2,3) r x by (intro js_number_exact) simp
  moreover have "foldl (\<lambda>sum x. js_number (sum + x)) (a + x) xs = (a + x) + sum_list xs"
    using Cons.prems r x by (intro Cons.IH) simp_all
  ultimately show ?case by simp
qed

lemma soma_js_exata:
  assumes "\<forall>x\<in>set xs. 0 \<le> x" "sum_list xs \<le> 9007199254740992"
  shows "soma_js xs = sum_list xs"
  unfolding soma_js_def using foldl_js_number_exact [OF assms(1), of 0] assms(2) by simp

lemma total_of_soma_js:
  "total_of k ts = soma_js (map valorCentavos (filter (\<lambda>t. tipo t = k) ts))"
  by (simp add: total_of_def soma_js_def foldl_map)

lemma total_of_exato:
  assumes "\<forall>t\<in>set ts. 0 \<le> valorCentavos t" "soma_tipo k ts \<le> 9007199254740992"
  shows "total_of k ts = soma_tipo k ts"
  unfolding total_of_soma_js soma_tipo_def
  using assms by (intro soma_js_exata) (simp_all add: soma_tipo_def)

lemma total_of_converter:
  "total_of Entrada (map (converter hoje) raws)
     = soma_js (map (\<lambda>raw. \<bar>parseValorBrasileiro (raw_valorOriginal raw)\<bar>)
         (filter (\<lambda>raw. parseValorBrasileiro (raw_valorOriginal raw) < 0) raws))"
  "total_of Saida (map (converter hoje) raws)
     = soma_js (map (\<lambda>raw. parseValorBrasileiro (raw_valorOriginal raw))
         (filter (\<lambda>raw. 0 \<le> parseValorBrasileiro (raw_valorOriginal raw)) raws))"
proof -
  have "map valorCentavos (filter (\<lambda>t. tipo t = Entrada) (map (converter hoje) raws))
      = map (\<lambda>raw. \<bar>parseValorBrasileiro (raw_valorOriginal raw)\<bar>)
          (filter (\<lambda>raw. parseValorBrasileiro (raw_valorOriginal raw) < 0) raws)"
    by (induction raws) (simp_all add: converter_def Let_def)
  then show "total_of Entrada (map (converter hoje) raws)
     = soma_js (map (\<lambda>raw. \<bar>parseValorBrasileiro (raw_valorOriginal raw)\<bar>)
         (filter (\<lambda>raw. parseValorBrasileiro (raw_valorOriginal raw) < 0) raws))"
    by (simp only: total_of_soma_js)
  have "map valorCentavos (filter (\<lambda>t. tipo t = Saida) (map (converter hoje) raws))
      = map (\<lambda>raw. parseValorBrasileiro (raw_valorOriginal raw))
          (filter (\<lambda>raw. 0 \<le> parseValorBrasileiro (raw_valorOriginal raw)) raws)"
    by (induction raws) (simp_all add: converter_def Let_def)
  then show "total_of Saida (map (converter hoje) raws)
     = soma_js (map (\<lambda>raw. parseValorBrasileiro (raw_valorOriginal raw))
         (filter (\<lambda>raw. 0 \<le> parseValorBrasileiro (raw_valorOriginal raw)) raws))"
    by (simp only: total_of_soma_js)
qed

lemma excluido_exemplos:
  "\<not> registro_excluido (registro i v c ''Extra'' ''Compra supermercado'' d)"
  "\<not> registro_excluido (registro i v c ''Extra'' ''Estorno produto'' d)"
  "\<not> registro_excluido (registro i v c ''Imobiliaria'' ''Aluguel'' d)"
  "\<not> registro_excluido (registro i v c ''Posto'' ''Reembolso'' d)"
  "registro_excluido (registro i v c ''Pagamentos Validos Normais'' ''Pagamento fatura'' d)"
  by (simp_all add: registro_excluido_iff passa_exemplos)

text \<open>
  The builder of the client, \<open>convertToTransactionData\<close> of \<open>services/openai.ts\<close>, keeps
  the sign in \<open>tipo\<close> alone. Every transaction that it produces comes from a record
  that passed the filter, and with \<open>p\<close> the signed amount parsed from that record: its
  \<open>valorCentavos\<close> is the absolute value of \<open>p\<close>, so it is not negative; its \<open>tipo\<close> is
  \<open>Entrada\<close> exactly when \<open>p < 0\<close> and \<open>Saida\<close> exactly when \<open>0 \<le> p\<close>; and \<open>p\<close> is
  recovered from \<open>tipo\<close> and \<open>valorCentavos\<close>. The hint of the classifier (\<open>raw_tipo\<close>)
  is not read.
\<close>

lemma convertToTransactionData_sign:
  "\<forall>t\<in>set (convertToTransactionData hoje raws).
     0 \<le> valorCentavos t \<and>
     (\<exists>raw\<in>set raws.
        passa_filtro raw \<and> t = converter hoje raw \<and>
        valorCentavos t = \<bar>parseValorBrasileiro (raw_valorOriginal raw)\<bar> \<and>
        (tipo t = Entrada \<longleftrightarrow> parseValorBrasileiro (raw_valorOriginal raw) < 0) \<and>
        (tipo t = Saida \<longleftrightarrow> 0 \<le> parseValorBrasileiro (raw_valorOriginal raw)) \<and>
        parseValorBrasileiro (raw_valorOriginal raw)
          = (if tipo t = Entrada then - valorCentavos t else valorCentavos t))"
proof
  fix t
  assume "t \<in> set (convertToTransactionData hoje raws)"
  then obtain raw where raw: "raw \<in> set raws" "passa_filtro raw" "t = converter hoje raw"
    by (auto simp: convertToTransactionData_def)
  let ?v = "parseValorBrasileiro (raw_valorOriginal raw)"
  have v: "valorCentavos t = \<bar>?v\<bar>" and k: "tipo t = (if ?v < 0 then Entrada else Saida)"
    using raw(3) by (simp_all add: converter_def Let_def)
  have "0 \<le> valorCentavos t" using v by simp
  moreover have "(tipo t = Entrada \<longleftrightarrow> ?v < 0) \<and> (tipo t = Saida \<longleftrightarrow> 0 \<le> ?v)"
    using k by auto
  moreover have "?v = (if tipo t = Entrada then - valorCentavos t else valorCentavos t)"
    using v k by auto
  ultimately show "0 \<le> valorCentavos t \<and>
     (\<exists>raw\<in>set raws.
        passa_filtro raw \<and> t = converter hoje raw \<and>
        valorCentavos t = \<bar>parseValorBrasileiro (raw_valorOriginal raw)\<bar> \<and>
        (tipo t = Entrada \<longleftrightarrow> parseValorBrasileiro (raw_valorOriginal raw) < 0) \<and>
        (tipo t = Saida \<longleftrightarrow> 0 \<le> parseValorBrasileiro (raw_valorOriginal raw)) \<and>
        parseValorBrasileiro (raw_valorOriginal raw)
          = (if tipo t = Entrada then - valorCentavos t else valorCentavos t))"
    using raw v by blast
qed

lemma convertToTransactionData_lote:
  "map (\<lambda>t. (id t, tipo t, valorCentavos t)) (convertToTransactionData ''2024-02-01'' exemplo_lote)
     = [(1, Saida, 10000), (2, Entrada, 2000), (3, Saida, 120000), (4, Entrada, 8000)]"
  using valor_100 valor_m20 valor_1200 valor_m80
  by (simp add: convertToTransactionData_def exemplo_lote_def passa_exemplos converter_def Let_def)
     (simp add: registro_def)

lemma valor_abc: "parseValorBrasileiro ''abc'' = 0"
proof -
  have a: "limpar_valor ''abc'' = (False, [])"
    by (simp add: string_eval valor_eval)
  have b: "separar_partes [] = ([], ''00'')"
    by (simp add: string_eval valor_eval)
  have c: "montar_centavos ([], ''00'') = 0"
    by (simp add: string_eval valor_eval)
  show ?thesis
    by (simp add: parseValorBrasileiro_def a b c startsWith_def)
qed

lemma valor_parenteses: "parseValorBrasileiro ''(100,00)'' = - 10000"
proof -
  have a: "limpar_valor ''(100,00)'' = (True, ''100,00'')"
    by (simp add: string_eval valor_eval)
  have b: "separar_partes ''100,00'' = (''100'', ''00'')"
    by (simp add: string_eval valor_eval)
  have c: "montar_centavos (''100'', ''00'') = 10000"
    by (simp add: string_eval valor_eval)
  show ?thesis
    by (simp add: parseValorBrasileiro_def a b c startsWith_def)
qed

subsection \<open>The builder of the server\<close>

lemma api_valor_abc: "api_parseValorBrasileiro ''abc'' = NaN"
proof -
  have a: "api_cleanValue ''abc'' = ''abc''"
    by (simp add: api_cleanValue_def string_eval)
  have b: "parseFloat ''abc'' = NaN"
    by (simp add: parseFloat_def string_eval)
  show ?thesis by (simp add: api_parseValorBrasileiro_def a b)
qed

lemma api_valor_parenteses: "api_parseValorBrasileiro ''(100,00)'' = NaN"
proof -
  have a: "api_cleanValue ''(100,00)'' = ''(100.00)''"
    by (simp add: api_cleanValue_def string_eval)
  have b: "parseFloat ''(100.00)'' = NaN"
    by (simp add: parseFloat_def string_eval)
  show ?thesis by (simp add: api_parseValorBrasileiro_def a b)
qed

lemma Math_round_int: "Math_round (Finite (of_int n)) = Finite (of_int n)"
proof -
  have "\<lfloor>(of_int n :: rat) + 1 / 2\<rfloor> = n" by (rule floor_unique) simp_all
  then show ?thesis by simp
qed

lemma api_valor_100: "api_parseValorBrasileiro ''100,00'' = Finite 10000"
proof -
  have a: "api_cleanValue ''100,00'' = ''100.00''"
    by (simp add: api_cleanValue_def string_eval)
  have b: "parseFloat ''100.00'' = Finite 100"
    by (simp add: parseFloat_def exponent_part_def string_eval dec_value_def digit_val_def)
  have c: "Math_round (Finite 10000) = Finite 10000" using Math_round_int [of 10000] by simp
  show ?thesis by (simp add: api_parseValorBrasileiro_def a b c del: Math_round.simps)
qed

lemma api_valor_m20: "api_parseValorBrasileiro ''-20.00'' = Finite (- 2000)"
proof -
  have a: "api_cleanValue ''-20.00'' = ''-20.00''"
    by (simp add: api_cleanValue_def string_eval)
  have b: "parseFloat ''-20.00'' = Finite (- 20)"
    by (simp add: parseFloat_def exponent_part_def string_eval dec_value_def digit_val_def)
  have c: "Math_round (Finite (- 2000)) = Finite (- 2000)"
    using Math_round_int [of "- 2000"] by simp
  show ?thesis by (simp add: api_parseValorBrasileiro_def a b c del: Math_round.simps)
qed

text \<open>
  C7. The builder of the client keeps the invariant (lemma
  \<open>convertToTransactionData_sign\<close> above); the builder of the server,
  \<open>convertToTransactionData\<close> of \<open>api/services/financial-analyzer.ts\<close>, does not. Its
  parser hands the cleaned string to \<open>parseFloat\<close> and has no fallback: for the amount
  \<open>abc\<close> the parsed value is \<open>NaN\<close>, the transaction gets the \<open>tipo\<close> \<open>Saida\<close> and the
  \<open>valorCentavos\<close> \<open>NaN\<close>, which is not a non-negative number. The same happens for
  \<open>(100,00)\<close>, the parentheses being kept. The client gives 0 and -10000 for these,
  and the two builders agree on \<open>100,00\<close> and \<open>-20.00\<close>.
\<close>

theorem api_convertToTransactionData_nan:
  "map (\<lambda>t. (api_id t, api_tipo t, api_valorCentavos t))
       (api_convertToTransactionData exemplo_invalido)
     = [(1, Saida, NaN)] \<and>
   \<not> nao_negativo (api_valorCentavos (hd (api_convertToTransactionData exemplo_invalido))) \<and>
   map (\<lambda>t. (id t, tipo t, valorCentavos t))
       (convertToTransactionData ''2024-02-01'' exemplo_invalido)
     = [(1, Saida, 0)] \<and>
   api_parseValorBrasileiro ''(100,00)'' = NaN \<and>
   parseValorBrasileiro ''(100,00)'' = - 10000 \<and>
   api_parseValorBrasileiro ''100,00'' = Finite 10000 \<and>
   parseValorBrasileiro ''100,00'' = 10000 \<and>
   api_parseValorBrasileiro ''-20.00'' = Finite (- 2000) \<and>
   parseValorBrasileiro ''-20.00'' = - 2000"
proof -
  have p: "filter passa_filtro exemplo_invalido = exemplo_invalido"
    by (simp add: exemplo_invalido_def passa_exemplos)
  have a: "map (\<lambda>t. (api_id t, api_tipo t, api_valorCentavos t))
       (api_convertToTransactionData exemplo_invalido) = [(1, Saida, NaN)]"
    unfolding api_convertToTransactionData_def p
    by (simp add: exemplo_invalido_def registro_def api_converter_def api_valor_abc)
  have h: "api_valorCentavos (hd (api_convertToTransactionData exemplo_invalido)) = NaN"
    unfolding api_convertToTransactionData_def p
    by (simp add: exemplo_invalido_def registro_def api_converter_def api_valor_abc)
  have c: "map (\<lambda>t. (id t, tipo t, valorCentavos t))
       (convertToTransactionData ''2024-02-01'' exemplo_invalido) = [(1, Saida, 0)]"
    unfolding convertToTransactionData_def p
    by (simp add: exemplo_invalido_def registro_def converter_def valor_abc)
  have v: "parseValorBrasileiro ''100,00'' = 10000"
  proof -
    have a: "limpar_valor ''100,00'' = (False, ''100,00'')"
      by (simp add: string_eval valor_eval)
    have b: "separar_partes ''100,00'' = (''100'', ''00'')"
      by (simp add: string_eval valor_eval)
    have c: "montar_centavos (''100'', ''00'') = 10000"
      by (simp add: string_eval valor_eval)
    show ?thesis
      by (simp add: parseValorBrasileiro_def a b c startsWith_def)
  qed
  show ?thesis
    using a h c api_valor_parenteses valor_parenteses api_valor_100 v api_valor_m20 valor_m20
    by simp
qed

text \<open>
  C8. A record whose \<open>empresa\<close> or \<open>descricao\<close> contains the marker of a bill payment,
  the case of letters ignored, gives no transaction, and every other record gives
  exactly one, in order: the transactions are the conversions of the records that are
  not excluded, and their number is the number of records less the excluded ones. The
  totals of the aggregation are sums over the records that are not excluded: the sums
  as the code adds them, which are the sums of integers whenever these are at most
  2^53. A batch of five records of which exactly one is excluded gives four
  transactions.
\<close>

theorem convertToTransactionData_exclusion:
  "convertToTransactionData hoje raws
     = map (converter hoje) (filter (\<lambda>raw. \<not> registro_excluido raw) raws) \<and>
   length (convertToTransactionData hoje raws)
     = length raws - length (filter registro_excluido raws) \<and>
   totalEntradasCentavos (aggregateTransactions mesAtual (convertToTransactionData hoje raws))
     = soma_js (map (\<lambda>raw. \<bar>parseValorBrasileiro (raw_valorOriginal raw)\<bar>)
         (filter (\<lambda>raw. parseValorBrasileiro (raw_valorOriginal raw) < 0)
           (filter (\<lambda>raw. \<not> registro_excluido raw) raws))) \<and>
   totalSaidasCentavos (aggregateTransactions mesAtual (convertToTransactionData hoje raws))
     = soma_js (map (\<lambda>raw. parseValorBrasileiro (raw_valorOriginal raw))
         (filter (\<lambda>raw. 0 \<le> parseValorBrasileiro (raw_valorOriginal raw))
           (filter (\<lambda>raw. \<not> registro_excluido raw) raws))) \<and>
   (sum_list (map (\<lambda>raw. \<bar>parseValorBrasileiro (raw_valorOriginal raw)\<bar>)
         (filter (\<lambda>raw. parseValorBrasileiro (raw_valorOriginal raw) < 0)
           (filter (\<lambda>raw. \<not> registro_excluido raw) raws))) \<le> 9007199254740992 \<longrightarrow>
    totalEntradasCentavos (aggregateTransactions mesAtual (convertToTransactionData hoje raws))
     = sum_list (map (\<lambda>raw. \<bar>parseValorBrasileiro (raw_valorOriginal raw)\<bar>)
         (filter (\<lambda>raw. parseValorBrasileiro (raw_valorOriginal raw) < 0)
           (filter (\<lambda>raw. \<not> registro_excluido raw) raws)))) \<and>
   (sum_list (map (\<lambda>raw. parseValorBrasileiro (raw_valorOriginal raw))
         (filter (\<lambda>raw. 0 \<le> parseValorBrasileiro (raw_valorOriginal raw))
           (filter (\<lambda>raw. \<not> registro_excluido raw) raws))) \<le> 9007199254740992 \<longrightarrow>
    totalSaidasCentavos (aggregateTransactions mesAtual (convertToTransactionData hoje raws))
     = sum_list (map (\<lambda>raw. parseValorBrasileiro (raw_valorOriginal raw))
         (filter (\<lambda>raw. 0 \<le> parseValorBrasileiro (raw_valorOriginal raw))
           (filter (\<lambda>raw. \<not> registro_excluido raw) raws)))) \<and>
   (length raws = 5 \<and> length (filter registro_excluido raws) = 1
      \<longrightarrow> length (convertToTransactionData hoje raws) = 4)"
proof -
  let ?ins = "map (\<lambda>raw. \<bar>parseValorBrasileiro (raw_valorOriginal raw)\<bar>)
         (filter (\<lambda>raw. parseValorBrasileiro (raw_valorOriginal raw) < 0)
           (filter (\<lambda>raw. \<not> registro_excluido raw) raws))"
  let ?outs = "map (\<lambda>raw. parseValorBrasileiro (raw_valorOriginal raw))
         (filter (\<lambda>raw. 0 \<le> parseValorBrasileiro (raw_valorOriginal raw))
           (filter (\<lambda>raw. \<not> registro_excluido raw) raws))"
  have f: "filter passa_filtro raws = filter (\<lambda>raw. \<not> registro_excluido raw) raws"
    by (simp add: registro_excluido_iff)
  have c: "convertToTransactionData hoje raws
     = map (converter hoje) (filter (\<lambda>raw. \<not> registro_excluido raw) raws)"
    by (simp add: convertToTransactionData_def f)
  have "length (filter (\<lambda>raw. \<not> registro_excluido raw) raws)
      + length (filter registro_excluido raws) = length raws"
    using sum_length_filter_compl [of registro_excluido raws] by simp
  then have l: "length (convertToTransactionData hoje raws)
     = length raws - length (filter registro_excluido raws)"
    using c by simp
  have e: "totalEntradasCentavos
      (aggregateTransactions mesAtual (convertToTransactionData hoje raws)) = soma_js ?ins"
    and s: "totalSaidasCentavos
      (aggregateTransactions mesAtual (convertToTransactionData hoje raws)) = soma_js ?outs"
    unfolding c by (simp_all only: totals_of_aggregate total_of_converter)
  have ee: "soma_js ?ins = sum_list ?ins" if "sum_list ?ins \<le> 9007199254740992"
    using that by (intro soma_js_exata) auto
  have ss: "soma_js ?outs = sum_list ?outs" if "sum_list ?outs \<le> 9007199254740992"
    using that by (intro soma_js_exata) auto
  show ?thesis
    using c l e s ee ss by simp
qed

theorem convertToTransactionData_exclusion_witness:
  "length exemplo_lote = 5 \<and> length (filter registro_excluido exemplo_lote) = 1 \<and>
   length (convertToTransactionData ''2024-02-01'' exemplo_lote) = 4 \<and>
   totalEntradasCentavos
     (aggregateTransactions ''2024-02'' (convertToTransactionData ''2024-02-01'' exemplo_lote))
     = 10000 \<and>
   totalSaidasCentavos
     (aggregateTransactions ''2024-02'' (convertToTransactionData ''2024-02-01'' exemplo_lote))
     = 130000"
proof -
  let ?ins = "map (\<lambda>raw. \<bar>parseValorBrasileiro (raw_valorOriginal raw)\<bar>)
         (filter (\<lambda>raw. parseValorBrasileiro (raw_valorOriginal raw) < 0)
           (filter (\<lambda>raw. \<not> registro_excluido raw) exemplo_lote))"
  let ?outs = "map (\<lambda>raw. parseValorBrasileiro (raw_valorOriginal raw))
         (filter (\<lambda>raw. 0 \<le> parseValorBrasileiro (raw_valorOriginal raw))
           (filter (\<lambda>raw. \<not> registro_excluido raw) exemplo_lote))"
  have n: "length exemplo_lote = 5" by (simp add: exemplo_lote_def)
  have e: "length (filter registro_excluido exemplo_lote) = 1"
    by (simp add: exemplo_lote_def excluido_exemplos)
  have k: "filter (\<lambda>raw. \<not> registro_excluido raw) exemplo_lote = take 4 exemplo_lote"
    by (simp add: exemplo_lote_def excluido_exemplos)
  have i: "sum_list ?ins = 10000"
    unfolding k by (simp add: exemplo_lote_def registro_def valor_100 valor_m20 valor_1200 valor_m80)
  have o: "sum_list ?outs = 130000"
    unfolding k by (simp add: exemplo_lote_def registro_def valor_100 valor_m20 valor_1200 valor_m80)
  note t = convertToTransactionData_exclusion [of "''2024-02-01''" exemplo_lote "''2024-02''"]
  have four: "length (convertToTransactionData ''2024-02-01'' exemplo_lote) = 4"
    using t n e by blast
  have "sum_list ?ins \<le> 9007199254740992" unfolding i by simp
  then have "totalEntradasCentavos
     (aggregateTransactions ''2024-02'' (convertToTransactionData ''2024-02-01'' exemplo_lote))
     = sum_list ?ins"
    using t by blast
  then have ent: "totalEntradasCentavos
     (aggregateTransactions ''2024-02'' (convertToTransactionData ''2024-02-01'' exemplo_lote))
     = 10000" unfolding i .
  have "sum_list ?outs \<le> 9007199254740992" unfolding o by simp
  then have "totalSaidasCentavos
     (aggregateTransactions ''2024-02'' (convertToTransactionData ''2024-02-01'' exemplo_lote))
     = sum_list ?outs"
    using t by blast
  then have sai: "totalSaidasCentavos
     (aggregateTransactions ''2024-02'' (convertToTransactionData ''2024-02-01'' exemplo_lote))
     = 130000" unfolding o .
  show ?thesis using n e four ent sai by blast
qed

section \<open>Sorting and the category map\<close>

subsection \<open>Sorting\<close>

lemma js_insert_insort_key:
  assumes "\<And>x y. cmp x y \<le> 0 \<longleftrightarrow> key x \<le> key y"
  shows "js_insert cmp x ys = insort_key key x ys"
  by (induction ys) (simp_all add: assms)

lemma js_sort_sort_key:
  assumes "\<And>x y. cmp x y \<le> 0 \<longleftrightarrow> key x \<le> key y"
  shows "js_sort cmp xs = sort_key key xs"
  by (induction xs) (simp_all add: js_sort_def js_insert_insort_key [OF assms])

lemma sort_by_total_desc:
  "js_sort by_total_desc xs = sort_key (\<lambda>c. - totalCentavos c) xs"
  by (rule js_sort_sort_key) (simp add: by_total_desc_def js_number_signs)

lemma categorias_sorted:
  "sorted (map (\<lambda>c. - totalCentavos c) (categorias (aggregateTransactions mesAtual ts)))"
  by (simp add: aggregateTransactions_def Let_def aggregateByCategory_def sort_by_total_desc)

lemma saidas_sorted:
  "sorted (map (\<lambda>c. - totalCentavos c) (saidas_de (aggregateTransactions mesAtual ts)))"
  unfolding saidas_de_def by (rule sorted_filter) (rule categorias_sorted)

lemma topCategorias_take:
  "topCategorias (aggregateTransactions mesAtual ts)
     = take 5 (saidas_de (aggregateTransactions mesAtual ts))"
proof -
  have "topCategorias (aggregateTransactions mesAtual ts)
      = take 5 (sort_key (\<lambda>c. - totalCentavos c) (saidas_de (aggregateTransactions mesAtual ts)))"
    by (simp add: aggregateTransactions_def Let_def saidas_de_def sort_by_total_desc)
  then show ?thesis
    by (simp add: sort_key_id_if_sorted [OF saidas_sorted])
qed

subsection \<open>Folds\<close>

lemma fold_invariant:
  assumes "I m" and "\<And>x m. x \<in> set xs \<Longrightarrow> I m \<Longrightarrow> I (f x m)"
  shows "I (fold f xs m)"
  using assms by (induction xs arbitrary: m) simp_all

subsection \<open>The map\<close>

lemma map_of_map_set: "map_of (map_set k v m) = (map_of m)(k \<mapsto> v)"
  by (induction m) (auto simp: fun_eq_iff)

lemma map_set_absent: "map_of m k = None \<Longrightarrow> map_set k v m = m @ [(k, v)]"
  by (induction m) (auto split: if_splits)

lemma set_map_set: "set (map_set k v m) \<subseteq> insert (k, v) (set m)"
  by (induction m) (auto split: if_splits)

lemma keys_map_set: "set (map fst (map_set k v m)) = insert k (set (map fst m))"
  by (induction k v m rule: map_set.induct) auto

lemma distinct_map_set: "distinct (map fst m) \<Longrightarrow> distinct (map fst (map_set k v m))"
proof (induction m)
  case Nil
  show ?case by simp
next
  case (Cons a m)
  obtain a1 a2 where a: "a = (a1, a2)" by (cases a)
  show ?case
  proof (cases "a1 = k")
    case True
    with Cons a show ?thesis by simp
  next
    case False
    have "set (map fst (map_set k v m)) = insert k (set (map fst m))" by (rule keys_map_set)
    with Cons a False show ?thesis by auto
  qed
qed

lemma sum_map_set_present:
  fixes g :: "'k \<times> 'v \<Rightarrow> int"
  assumes "distinct (map fst m)" "map_of m k = Some e"
  shows "sum_list (map g (map_set k v m)) = sum_list (map g m) - g (k, e) + g (k, v)"
  using assms
proof (induction m)
  case Nil
  then show ?case by simp
next
  case (Cons a m)
  obtain a1 a2 where a: "a = (a1, a2)" by (cases a)
  show ?case
  proof (cases "a1 = k")
    case True
    with Cons.prems a show ?thesis by simp
  next
    case False
    with Cons a show ?thesis by simp
  qed
qed

lemma add_level_novo:
  "add_level t i m = map_set (join '' > '' (take (i + 1) (categoriaPath t))) (novo_valor t i m) m"
proof -
  have upd: "\<And>a x. a\<lparr>v_entrada := x, v_transactionCount := v_transactionCount a + 1\<rparr>
      = \<lparr>v_entrada = x, v_saida = v_saida a,
         v_categoriaPath = v_categoriaPath a, v_transactionCount = v_transactionCount a + 1\<rparr>"
    "\<And>a x. a\<lparr>v_saida := x, v_transactionCount := v_transactionCount a + 1\<rparr>
      = \<lparr>v_entrada = v_entrada a, v_saida = x,
         v_categoriaPath = v_categoriaPath a, v_transactionCount = v_transactionCount a + 1\<rparr>"
    by simp_all
  show ?thesis
    by (cases "map_of m (join '' > '' (take (i + 1) (categoriaPath t)))")
       (simp_all add: add_level_def novo_valor_def Let_def upd)
qed

subsection \<open>Joined paths\<close>

lemma join_has_separator:
  "xs \<noteq> [] \<Longrightarrow> \<forall>s\<in>set xs. CHR ''>'' \<notin> set s \<Longrightarrow>
     (CHR ''>'' \<in> set (join '' > '' xs)) = (2 \<le> length xs)"
  by (induction "'' > ''" xs rule: join.induct) simp_all

lemma split_at_first:
  "c \<notin> set a \<Longrightarrow> c \<notin> set b \<Longrightarrow> a @ c # r = b @ c # r' \<Longrightarrow> a = b \<and> r = r'"
proof (induction a arbitrary: b)
  case Nil
  then show ?case by (cases b) auto
next
  case (Cons x a)
  then show ?case by (cases b) auto
qed

lemma join_Cons: "ys \<noteq> [] \<Longrightarrow> join sep (x # ys) = x @ sep @ join sep ys"
  by (cases ys) simp_all

lemma join_inj:
  assumes "xs \<noteq> []" "ys \<noteq> []"
    and "\<forall>s\<in>set xs. CHR ''>'' \<notin> set s" "\<forall>s\<in>set ys. CHR ''>'' \<notin> set s"
    and "join '' > '' xs = join '' > '' ys"
  shows "xs = ys"
  using assms
proof (induction xs arbitrary: ys)
  case Nil
  then show ?case by simp
next
  case (Cons x xs)
  obtain y ys' where ys: "ys = y # ys'" using Cons.prems(2) by (cases ys) auto
  show ?case
  proof (cases "xs = []")
    case True
    have "\<not> 2 \<le> length (x # xs)" using True by simp
    then have "CHR ''>'' \<notin> set (join '' > '' (x # xs))"
      using join_has_separator [of "x # xs"] Cons.prems(3) by blast
    then have "CHR ''>'' \<notin> set (join '' > '' ys)" unfolding Cons.prems(5) .
    then have "\<not> 2 \<le> length ys"
      using join_has_separator [of ys] Cons.prems(2,4) by blast
    then have "ys' = []" using ys by (cases ys') auto
    with True ys Cons.prems show ?thesis by simp
  next
    case False
    have "2 \<le> length (x # xs)" using False by (cases xs) auto
    then have "CHR ''>'' \<in> set (join '' > '' (x # xs))"
      using join_has_separator [of "x # xs"] Cons.prems(3) by blast
    then have "CHR ''>'' \<in> set (join '' > '' ys)" unfolding Cons.prems(5) .
    then have "2 \<le> length ys"
      using join_has_separator [of ys] Cons.prems(2,4) by blast
    then have ne: "ys' \<noteq> []" using ys by auto
    have eq: "(x @ '' '') @ CHR ''>'' # ('' '' @ join '' > '' xs)
        = (y @ '' '') @ CHR ''>'' # ('' '' @ join '' > '' ys')"
      using Cons.prems(5) ys False ne by (simp add: join_Cons)
    have "CHR ''>'' \<notin> set (x @ '' '')" "CHR ''>'' \<notin> set (y @ '' '')"
      using Cons.prems(3,4) ys by auto
    from split_at_first [OF this eq] have xy: "x = y" and rest: "join '' > '' xs = join '' > '' ys'"
      by auto
    have "xs = ys'"
      using Cons.IH [of ys'] False ne Cons.prems(3,4) ys rest by simp
    with xy ys show ?thesis by simp
  qed
qed

lemma count_level:
  "length (filter (\<lambda>i. Suc i = l) [0 ..< n]) = (if 0 < l \<and> l \<le> n then 1 else 0)"
  by (induction n) auto

lemma one_level:
  assumes q: "q \<noteq> []" "\<forall>s\<in>set q. CHR ''>'' \<notin> set s" and p: "\<forall>s\<in>set p. CHR ''>'' \<notin> set s"
  shows "length (filter (\<lambda>i. join '' > '' (take (Suc i) p) = join '' > '' q) [0 ..< length p])
     = (if tem_prefixo q p then 1 else 0)"
proof -
  have iff: "join '' > '' (take (Suc i) p) = join '' > '' q \<longleftrightarrow> Suc i = length q \<and> tem_prefixo q p"
    if i: "i \<in> set [0 ..< length p]" for i
  proof
    assume e: "join '' > '' (take (Suc i) p) = join '' > '' q"
    from i have ne: "take (Suc i) p \<noteq> []" by auto
    have "\<forall>s\<in>set (take (Suc i) p). CHR ''>'' \<notin> set s"
      using p by (auto dest: in_set_takeD)
    from join_inj [OF ne q(1) this q(2) e] have tq: "take (Suc i) p = q" .
    then have "length q = Suc i" using i by auto
    with tq show "Suc i = length q \<and> tem_prefixo q p" by (simp add: tem_prefixo_def)
  next
    assume "Suc i = length q \<and> tem_prefixo q p"
    then show "join '' > '' (take (Suc i) p) = join '' > '' q" by (simp add: tem_prefixo_def)
  qed
  have "filter (\<lambda>i. join '' > '' (take (Suc i) p) = join '' > '' q) [0 ..< length p]
      = filter (\<lambda>i. Suc i = length q \<and> tem_prefixo q p) [0 ..< length p]"
    by (rule filter_cong) (use iff in auto)
  also have "length \<dots> = (if tem_prefixo q p then 1 else 0)"
  proof (cases "tem_prefixo q p")
    case True
    then have "length (take (length q) p) = length q" by (simp add: tem_prefixo_def)
    then have "length q \<le> length p" by simp
    with True q(1) show ?thesis by (simp add: count_level)
  next
    case False
    then show ?thesis by simp
  qed
  finally show ?thesis .
qed

subsection \<open>One level of one transaction\<close>

lemma novo_valor_path:
  "v_categoriaPath (novo_valor t i m)
     = (case map_of m (join '' > '' (take (i + 1) (categoriaPath t))) of
          Some e \<Rightarrow> v_categoriaPath e
        | None \<Rightarrow> take (i + 1) (categoriaPath t))"
  by (simp add: novo_valor_def Let_def split: option.split)

lemma chave_ok_lookup:
  assumes "chave_ok m" "map_of m k = Some e"
  shows "k = join '' > '' (v_categoriaPath e)" "v_categoriaPath e \<noteq> []"
    "\<forall>s\<in>set (v_categoriaPath e). CHR ''>'' \<notin> set s"
proof -
  from assms(2) have "(k, e) \<in> set m" by (rule map_of_SomeD)
  with assms(1) have "fst (k, e) = join '' > '' (v_categoriaPath (snd (k, e))) \<and>
      v_categoriaPath (snd (k, e)) \<noteq> [] \<and>
      (\<forall>s\<in>set (v_categoriaPath (snd (k, e))). CHR ''>'' \<notin> set s)"
    unfolding chave_ok_def by blast
  then show "k = join '' > '' (v_categoriaPath e)" "v_categoriaPath e \<noteq> []"
    "\<forall>s\<in>set (v_categoriaPath e). CHR ''>'' \<notin> set s"
    by simp_all
qed

lemma stored_path:
  assumes ok: "chave_ok m" and sep: "sem_separador t" and i: "i < length (categoriaPath t)"
  shows "v_categoriaPath (novo_valor t i m) = take (i + 1) (categoriaPath t)"
proof (cases "map_of m (join '' > '' (take (i + 1) (categoriaPath t)))")
  case None
  then show ?thesis by (simp add: novo_valor_path)
next
  case (Some e)
  note e = chave_ok_lookup [OF ok Some]
  have ne: "take (i + 1) (categoriaPath t) \<noteq> []" using i by auto
  have segs: "\<forall>s\<in>set (take (i + 1) (categoriaPath t)). CHR ''>'' \<notin> set s"
    using sep unfolding sem_separador_def by (auto dest: in_set_takeD)
  have "take (i + 1) (categoriaPath t) = v_categoriaPath e"
    by (rule join_inj [OF ne e(2) segs e(3) e(1)])
  with Some show ?thesis by (simp add: novo_valor_path)
qed

lemma chave_okI:
  assumes "distinct (map fst m)"
    and "\<And>kv. kv \<in> set m \<Longrightarrow> fst kv = join '' > '' (v_categoriaPath (snd kv)) \<and>
         v_categoriaPath (snd kv) \<noteq> [] \<and> (\<forall>s\<in>set (v_categoriaPath (snd kv)). CHR ''>'' \<notin> set s)"
  shows "chave_ok m"
  unfolding chave_ok_def using assms by blast

lemma chave_okD:
  assumes "chave_ok m"
  shows "distinct (map fst m)"
    and "kv \<in> set m \<Longrightarrow> fst kv = join '' > '' (v_categoriaPath (snd kv)) \<and>
         v_categoriaPath (snd kv) \<noteq> [] \<and> (\<forall>s\<in>set (v_categoriaPath (snd kv)). CHR ''>'' \<notin> set s)"
  using assms unfolding chave_ok_def by blast+

lemma chave_ok_add_level:
  assumes ok: "chave_ok m" and sep: "sem_separador t" and i: "i < length (categoriaPath t)"
  shows "chave_ok (add_level t i m)"
  unfolding add_level_novo
proof (rule chave_okI)
  let ?k = "join '' > '' (take (i + 1) (categoriaPath t))"
  let ?v = "novo_valor t i m"
  show "distinct (map fst (map_set ?k ?v m))"
    using chave_okD(1) [OF ok] by (rule distinct_map_set)
  fix kv assume "kv \<in> set (map_set ?k ?v m)"
  then have "kv = (?k, ?v) \<or> kv \<in> set m" using set_map_set [of ?k ?v m] by auto
  then show "fst kv = join '' > '' (v_categoriaPath (snd kv)) \<and>
         v_categoriaPath (snd kv) \<noteq> [] \<and> (\<forall>s\<in>set (v_categoriaPath (snd kv)). CHR ''>'' \<notin> set s)"
  proof
    assume kv: "kv = (?k, ?v)"
    have p: "v_categoriaPath ?v = take (i + 1) (categoriaPath t)"
      by (rule stored_path [OF assms])
    have ne: "take (i + 1) (categoriaPath t) \<noteq> []" using i by auto
    have segs: "\<forall>s\<in>set (take (i + 1) (categoriaPath t)). CHR ''>'' \<notin> set s"
      using sep unfolding sem_separador_def by (auto dest: in_set_takeD)
    show ?thesis unfolding kv fst_conv snd_conv p using ne segs by blast
  next
    assume "kv \<in> set m"
    then show ?thesis by (rule chave_okD(2) [OF ok])
  qed
qed

lemma valores_ok_add_level:
  assumes ok: "valores_ok m" and v: "0 \<le> valorCentavos t"
  shows "valores_ok (add_level t i m)"
proof -
  let ?k = "join '' > '' (take (i + 1) (categoriaPath t))"
  let ?v = "novo_valor t i m"
  have new: "0 \<le> v_entrada ?v \<and> 0 \<le> v_saida ?v"
  proof (cases "map_of m ?k")
    case None
    with v show ?thesis by (simp add: novo_valor_def js_number_signs Let_def)
  next
    case (Some e)
    then have "(?k, e) \<in> set m" by (rule map_of_SomeD)
    with ok have "0 \<le> v_entrada e \<and> 0 \<le> v_saida e" unfolding valores_ok_def by fastforce
    with v Some show ?thesis by (simp add: novo_valor_def js_number_signs Let_def)
  qed
  have "\<forall>kv\<in>set (map_set ?k ?v m). 0 \<le> v_entrada (snd kv) \<and> 0 \<le> v_saida (snd kv)"
  proof
    fix kv assume "kv \<in> set (map_set ?k ?v m)"
    then have "kv = (?k, ?v) \<or> kv \<in> set m" using set_map_set [of ?k ?v m] by auto
    then show "0 \<le> v_entrada (snd kv) \<and> 0 \<le> v_saida (snd kv)"
      using new ok unfolding valores_ok_def by auto
  qed
  then show ?thesis unfolding valores_ok_def add_level_novo .
qed

lemma origem_ok_add_level:
  assumes ok: "origem_ok T m" and i: "i < length (categoriaPath t)" and t: "t \<in> T"
  shows "origem_ok T (add_level t i m)"
proof -
  let ?k = "join '' > '' (take (i + 1) (categoriaPath t))"
  let ?v = "novo_valor t i m"
  have new: "v_categoriaPath ?v \<noteq> [] \<and> (\<exists>u\<in>T. tem_prefixo (v_categoriaPath ?v) (categoriaPath u))"
  proof (cases "map_of m ?k")
    case None
    have "tem_prefixo (take (i + 1) (categoriaPath t)) (categoriaPath t)"
      using i by (simp add: tem_prefixo_def min_def)
    with None i t show ?thesis by (auto simp: novo_valor_path)
  next
    case (Some e)
    then have "(?k, e) \<in> set m" by (rule map_of_SomeD)
    with ok have "v_categoriaPath e \<noteq> [] \<and> (\<exists>u\<in>T. tem_prefixo (v_categoriaPath e) (categoriaPath u))"
      unfolding origem_ok_def by fastforce
    with Some show ?thesis by (simp add: novo_valor_path)
  qed
  have "\<forall>kv\<in>set (map_set ?k ?v m). v_categoriaPath (snd kv) \<noteq> [] \<and>
        (\<exists>u\<in>T. tem_prefixo (v_categoriaPath (snd kv)) (categoriaPath u))"
  proof
    fix kv assume "kv \<in> set (map_set ?k ?v m)"
    then have "kv = (?k, ?v) \<or> kv \<in> set m" using set_map_set [of ?k ?v m] by auto
    then show "v_categoriaPath (snd kv) \<noteq> [] \<and>
        (\<exists>u\<in>T. tem_prefixo (v_categoriaPath (snd kv)) (categoriaPath u))"
      using new ok unfolding origem_ok_def by auto
  qed
  then show ?thesis unfolding origem_ok_def add_level_novo .
qed

subsection \<open>Sums and counts, one level\<close>

lemma tipo_neq_Entrada: "(k \<noteq> Entrada) = (k = Saida)"
  by (cases k) simp_all

lemma v_total_simps: "v_total Entrada = v_entrada" "v_total Saida = v_saida"
  by (simp_all add: v_total_def fun_eq_iff)

lemma v_total_novo:
  "v_total k (novo_valor t i m)
     = (let old = (case map_of m (join '' > '' (take (i + 1) (categoriaPath t))) of
                     Some e \<Rightarrow> v_total k e
                   | None \<Rightarrow> 0)
        in if tipo t = k then js_number (old + valorCentavos t) else old)"
  by (cases k; cases "tipo t")
     (simp_all add: v_total_def novo_valor_def Let_def split: option.split)

lemma elem_le_sum_list:
  fixes g :: "'a \<Rightarrow> int"
  assumes "\<forall>x\<in>set xs. 0 \<le> g x" "y \<in> set xs"
  shows "g y \<le> sum_list (map g xs)"
  using assms
proof (induction xs)
  case Nil
  then show ?case by simp
next
  case (Cons x xs)
  have r: "0 \<le> sum_list (map g xs)" using Cons.prems(1) by (intro sum_list_nonneg) auto
  have x: "0 \<le> g x" using Cons.prems(1) by simp
  show ?case
  proof (cases "y = x")
    case True
    with r show ?thesis by simp
  next
    case False
    with Cons have "g y \<le> sum_list (map g xs)" by simp
    with x show ?thesis by simp
  qed
qed

lemma soma_add_level:
  assumes ok: "chave_ok m" and sep: "sem_separador t" and i: "i < length (categoriaPath t)"
    and vok: "valores_ok m" and v: "0 \<le> valorCentavos t"
    and lim: "i = 0 \<Longrightarrow> tipo t = k \<Longrightarrow>
              soma_nivel1 (v_total k) m + valorCentavos t \<le> 9007199254740992"
  shows "soma_nivel1 (v_total k) (add_level t i m)
       = soma_nivel1 (v_total k) m + (if i = 0 \<and> tipo t = k then valorCentavos t else 0)"
proof -
  let ?k = "join '' > '' (take (i + 1) (categoriaPath t))"
  let ?v = "novo_valor t i m"
  let ?g = "\<lambda>kv :: string \<times> CategoryValues.
              if length (v_categoriaPath (snd kv)) = 1 then v_total k (snd kv) else (0 :: int)"
  have p: "v_categoriaPath ?v = take (i + 1) (categoriaPath t)"
    by (rule stored_path [OF ok sep i])
  then have len: "length (v_categoriaPath ?v) = i + 1" using i by simp
  have nonneg: "\<forall>kv\<in>set m. 0 \<le> ?g kv"
    using vok by (auto simp: valores_ok_def v_total_def)
  have soma0: "0 \<le> soma_nivel1 (v_total k) m"
    unfolding soma_nivel1_def using nonneg by (intro sum_list_nonneg) auto
  show ?thesis
  proof (cases "map_of m ?k")
    case None
    have a: "add_level t i m = m @ [(?k, ?v)]"
      unfolding add_level_novo using None by (rule map_set_absent)
    have new: "?g (?k, ?v) = (if i = 0 \<and> tipo t = k then valorCentavos t else 0)"
    proof (cases "i = 0 \<and> tipo t = k")
      case True
      then have "valorCentavos t \<le> 9007199254740992" using lim soma0 by simp
      then have "js_number (valorCentavos t) = valorCentavos t"
        using v by (intro js_number_exact) simp
      then show ?thesis using True None len by (simp add: v_total_novo)
    next
      case False
      then show ?thesis using None len by (auto simp: v_total_novo)
    qed
    have "soma_nivel1 (v_total k) (m @ [(?k, ?v)])
        = soma_nivel1 (v_total k) m + ?g (?k, ?v)"
      by (simp add: soma_nivel1_def)
    then show ?thesis unfolding a new .
  next
    case (Some old)
    have pe: "v_categoriaPath old = v_categoriaPath ?v"
      using Some by (simp add: novo_valor_path)
    have d: "distinct (map fst m)" by (rule chave_okD(1) [OF ok])
    have mem: "(?k, old) \<in> set m" using Some by (rule map_of_SomeD)
    have s: "sum_list (map ?g (map_set ?k ?v m))
        = sum_list (map ?g m) - ?g (?k, old) + ?g (?k, ?v)"
      by (rule sum_map_set_present [OF d Some])
    have new: "?g (?k, ?v) = ?g (?k, old) + (if i = 0 \<and> tipo t = k then valorCentavos t else 0)"
    proof (cases "i = 0 \<and> tipo t = k")
      case True
      have "?g (?k, old) \<le> sum_list (map ?g m)" using nonneg mem by (rule elem_le_sum_list)
      then have le: "v_total k old \<le> soma_nivel1 (v_total k) m"
        using True pe len by (simp add: soma_nivel1_def)
      have "0 \<le> ?g (?k, old)" using nonneg mem by blast
      then have ge: "0 \<le> v_total k old" using True pe len by simp
      have "js_number (v_total k old + valorCentavos t) = v_total k old + valorCentavos t"
        using lim True v le ge by (intro js_number_exact) simp
      then show ?thesis using True Some pe len by (simp add: v_total_novo)
    next
      case False
      then show ?thesis using Some pe len by (auto simp: v_total_novo)
    qed
    show ?thesis unfolding add_level_novo soma_nivel1_def s new by simp
  qed
qed

lemma contagem_add_level:
  "contagem (add_level t i m) k
     = contagem m k + (if join '' > '' (take (Suc i) (categoriaPath t)) = k then 1 else 0)"
  by (simp add: add_level_novo contagem_def map_of_map_set novo_valor_def Let_def
      split: option.split)

subsection \<open>All levels of one transaction\<close>

lemma fold_upt_Suc: "fold f [0 ..< Suc n] m = f n (fold f [0 ..< n] m)"
  by simp

lemma chave_ok_levels:
  assumes "chave_ok m" "sem_separador t" "n \<le> length (categoriaPath t)"
  shows "chave_ok (fold (add_level t) [0 ..< n] m)"
  using assms(3)
proof (induction n)
  case 0
  show ?case using assms(1) by simp
next
  case (Suc n)
  then have "chave_ok (fold (add_level t) [0 ..< n] m)" by simp
  then have "chave_ok (add_level t n (fold (add_level t) [0 ..< n] m))"
    using assms(2) Suc.prems by (intro chave_ok_add_level) simp_all
  then show ?case by (simp only: fold_upt_Suc)
qed

lemma valores_ok_levels:
  assumes "valores_ok m" "0 \<le> valorCentavos t"
  shows "valores_ok (fold (add_level t) [0 ..< n] m)"
  using assms(1)
  by (rule fold_invariant) (rule valores_ok_add_level [OF _ assms(2)])

lemma soma_levels:
  assumes "chave_ok m" "sem_separador t" "n \<le> length (categoriaPath t)"
    and "valores_ok m" "0 \<le> valorCentavos t"
    and lim: "tipo t = k \<Longrightarrow> soma_nivel1 (v_total k) m + valorCentavos t \<le> 9007199254740992"
  shows "soma_nivel1 (v_total k) (fold (add_level t) [0 ..< n] m)
       = soma_nivel1 (v_total k) m + (if 0 < n \<and> tipo t = k then valorCentavos t else 0)"
  using assms(3)
proof (induction n)
  case 0
  show ?case by simp
next
  case (Suc n)
  let ?m = "fold (add_level t) [0 ..< n] m"
  have ok: "chave_ok ?m"
    using assms(1,2) Suc.prems by (intro chave_ok_levels) simp_all
  have vok: "valores_ok ?m" using assms(4,5) by (rule valores_ok_levels)
  have n: "n < length (categoriaPath t)" using Suc.prems by simp
  have ih: "soma_nivel1 (v_total k) ?m
       = soma_nivel1 (v_total k) m + (if 0 < n \<and> tipo t = k then valorCentavos t else 0)"
    using Suc.IH n by simp
  have step: "soma_nivel1 (v_total k) (add_level t n ?m)
       = soma_nivel1 (v_total k) ?m + (if n = 0 \<and> tipo t = k then valorCentavos t else 0)"
  proof (rule soma_add_level [OF ok assms(2) n vok assms(5)])
    assume "n = 0" "tipo t = k"
    then show "soma_nivel1 (v_total k) ?m + valorCentavos t \<le> 9007199254740992"
      using lim by simp
  qed
  show ?case
    unfolding fold_upt_Suc step ih by (cases "n = 0") simp_all
qed

lemma contagem_levels:
  "contagem (fold (add_level t) [0 ..< n] m) k
     = contagem m k
       + int (length (filter (\<lambda>i. join '' > '' (take (Suc i) (categoriaPath t)) = k) [0 ..< n]))"
proof (induction n)
  case 0
  show ?case by simp
next
  case (Suc n)
  show ?case
    using Suc.IH contagem_add_level [of t n "fold (add_level t) [0 ..< n] m" k]
    by (simp only: fold_upt_Suc) simp
qed

lemma origem_ok_levels:
  assumes "origem_ok T m" "t \<in> T"
  shows "origem_ok T (fold (add_level t) [0 ..< length (categoriaPath t)] m)"
  using assms(1)
proof (rule fold_invariant)
  fix i m'
  assume "i \<in> set [0 ..< length (categoriaPath t)]" "origem_ok T m'"
  then show "origem_ok T (add_level t i m')"
    using assms(2) by (intro origem_ok_add_level) simp_all
qed

subsection \<open>All transactions\<close>

lemma soma_tipo_Cons:
  "soma_tipo k (t # ts) = (if tipo t = k then valorCentavos t else 0) + soma_tipo k ts"
  by (simp add: soma_tipo_def)

lemma soma_tipo_nonneg: "\<forall>t\<in>set ts. 0 \<le> valorCentavos t \<Longrightarrow> 0 \<le> soma_tipo k ts"
  unfolding soma_tipo_def by (intro sum_list_nonneg) auto

lemma chave_ok_transactions:
  assumes "\<forall>t\<in>set ts. sem_separador t" "chave_ok m"
  shows "chave_ok (fold add_transaction ts m)"
  using assms(2)
proof (rule fold_invariant)
  fix t m'
  assume "t \<in> set ts" "chave_ok m'"
  then show "chave_ok (add_transaction t m')"
    unfolding add_transaction_def using assms(1) by (intro chave_ok_levels) simp_all
qed

lemma valores_ok_transactions:
  assumes "\<forall>t\<in>set ts. 0 \<le> valorCentavos t" "valores_ok m"
  shows "valores_ok (fold add_transaction ts m)"
  using assms(2)
proof (rule fold_invariant)
  fix t m'
  assume "t \<in> set ts" "valores_ok m'"
  then show "valores_ok (add_transaction t m')"
    unfolding add_transaction_def using assms(1) by (intro valores_ok_levels) simp_all
qed

lemma origem_ok_transactions:
  assumes "set ts \<subseteq> T" "origem_ok T m"
  shows "origem_ok T (fold add_transaction ts m)"
  using assms(2)
proof (rule fold_invariant)
  fix t m'
  assume "t \<in> set ts" "origem_ok T m'"
  then show "origem_ok T (add_transaction t m')"
    unfolding add_transaction_def using assms(1) by (intro origem_ok_levels) auto
qed

lemma soma_transactions:
  assumes "\<forall>t\<in>set ts. transacao_valida t" "chave_ok m" "valores_ok m"
    and "soma_nivel1 (v_total k) m + soma_tipo k ts \<le> 9007199254740992"
  shows "soma_nivel1 (v_total k) (fold add_transaction ts m)
           = soma_nivel1 (v_total k) m + soma_tipo k ts"
  using assms
proof (induction ts arbitrary: m)
  case Nil
  show ?case by (simp add: soma_tipo_def)
next
  case (Cons t ts)
  from Cons.prems(1) have t: "sem_separador t" "0 < length (categoriaPath t)"
      "0 \<le> valorCentavos t"
    by (simp_all add: transacao_valida_def)
  have rest: "0 \<le> soma_tipo k ts"
    using Cons.prems(1) by (intro soma_tipo_nonneg) (simp add: transacao_valida_def)
  have ok: "chave_ok (add_transaction t m)"
    unfolding add_transaction_def using Cons.prems(2) t(1) by (intro chave_ok_levels) simp_all
  have vok: "valores_ok (add_transaction t m)"
    unfolding add_transaction_def using Cons.prems(3) t(3) by (rule valores_ok_levels)
  have "soma_nivel1 (v_total k) (fold (add_level t) [0 ..< length (categoriaPath t)] m)
       = soma_nivel1 (v_total k) m
         + (if 0 < length (categoriaPath t) \<and> tipo t = k then valorCentavos t else 0)"
  proof (rule soma_levels [OF Cons.prems(2) t(1) order_refl Cons.prems(3) t(3)])
    assume "tipo t = k"
    then show "soma_nivel1 (v_total k) m + valorCentavos t \<le> 9007199254740992"
      using Cons.prems(4) rest by (simp add: soma_tipo_Cons)
  qed
  then have one: "soma_nivel1 (v_total k) (add_transaction t m)
       = soma_nivel1 (v_total k) m + (if tipo t = k then valorCentavos t else 0)"
    using t(2) by (simp add: add_transaction_def)
  have lim: "soma_nivel1 (v_total k) (add_transaction t m) + soma_tipo k ts
      \<le> 9007199254740992"
    using Cons.prems(4) by (simp add: one soma_tipo_Cons)
  have "soma_nivel1 (v_total k) (fold add_transaction ts (add_transaction t m))
           = soma_nivel1 (v_total k) (add_transaction t m) + soma_tipo k ts"
    using Cons.prems(1) ok vok lim by (intro Cons.IH) simp_all
  then show ?case
    by (simp add: one soma_tipo_Cons)
qed

lemma contagem_transactions:
  "contagem (fold add_transaction ts m) k
     = contagem m k
       + sum_list (map (\<lambda>t. int (length (filter
             (\<lambda>i. join '' > '' (take (Suc i) (categoriaPath t)) = k)
             [0 ..< length (categoriaPath t)]))) ts)"
proof (induction ts arbitrary: m)
  case Nil
  show ?case by simp
next
  case (Cons t ts)
  show ?case
    unfolding fold_simps Cons.IH
    by (simp add: add_transaction_def contagem_levels)
qed

lemma sum_indicator:
  "sum_list (map (\<lambda>t. if P t then 1 else 0) ts) = int (length (filter P ts))"
  by (induction ts) simp_all

lemma contagem_prefixo:
  assumes q: "q \<noteq> []" "\<forall>s\<in>set q. CHR ''>'' \<notin> set s" and ts: "\<forall>t\<in>set ts. sem_separador t"
  shows "contagem (build_category_map ts) (join '' > '' q) = conta_prefixo q ts"
proof -
  have eq: "map (\<lambda>t. int (length (filter
             (\<lambda>i. join '' > '' (take (Suc i) (categoriaPath t)) = join '' > '' q)
             [0 ..< length (categoriaPath t)]))) ts
      = map (\<lambda>t. if tem_prefixo q (categoriaPath t) then 1 else 0) ts"
  proof (rule map_cong [OF refl])
    fix t assume "t \<in> set ts"
    then have "\<forall>s\<in>set (categoriaPath t). CHR ''>'' \<notin> set s"
      using ts by (simp add: sem_separador_def)
    from one_level [OF q this]
    show "int (length (filter
             (\<lambda>i. join '' > '' (take (Suc i) (categoriaPath t)) = join '' > '' q)
             [0 ..< length (categoriaPath t)]))
        = (if tem_prefixo q (categoriaPath t) then 1 else 0)"
      by simp
  qed
  have empty: "contagem [] (join '' > '' q) = 0" by (simp add: contagem_def)
  show ?thesis
    unfolding build_category_map_def contagem_transactions conta_prefixo_def eq sum_indicator empty
    by simp
qed

subsection \<open>From the map to the entries\<close>

lemma categorias_eq:
  "categorias (aggregateTransactions mesAtual ts)
     = sort_key (\<lambda>c. - totalCentavos c)
         (concat (map (emit_category (total_of Entrada ts) (total_of Saida ts))
                      (build_category_map ts)))"
  by (simp add: aggregateTransactions_def Let_def aggregateByCategory_def sort_by_total_desc)

lemma emitted_entry:
  assumes "c \<in> set (emit_category a b kv)"
  shows "nome c = fst kv \<and> caminho c = v_categoriaPath (snd kv) \<and>
         transactionCount c = v_transactionCount (snd kv)"
  using assms by (auto simp: emit_category_def Let_def split: if_splits)

lemma categorias_entry:
  assumes "c \<in> set (categorias (aggregateTransactions mesAtual ts))"
  shows "\<exists>kv\<in>set (build_category_map ts).
           nome c = fst kv \<and> caminho c = v_categoriaPath (snd kv) \<and>
           transactionCount c = v_transactionCount (snd kv)"
proof -
  from assms obtain kv where kv: "kv \<in> set (build_category_map ts)"
      "c \<in> set (emit_category (total_of Entrada ts) (total_of Saida ts) kv)"
    unfolding categorias_eq by auto
  from emitted_entry [OF kv(2)] kv(1) show ?thesis by blast
qed

lemma total_nivel1_sort: "total_nivel1 k (sort_key f xs) = total_nivel1 k xs"
proof -
  let ?P = "\<lambda>c. tipo_cat c = k \<and> length (caminho c) = 1"
  have "mset (map totalCentavos (filter ?P (sort_key f xs)))
      = mset (map totalCentavos (filter ?P xs))"
    by (simp add: filter_sort)
  then have "sum_mset (mset (map totalCentavos (filter ?P (sort_key f xs))))
      = sum_mset (mset (map totalCentavos (filter ?P xs)))"
    by (rule arg_cong)
  then show ?thesis
    unfolding total_nivel1_def sum_mset_sum_list .
qed

lemma total_nivel1_emit:
  assumes "valores_ok m"
  shows "total_nivel1 entrada (concat (map (emit_category a b) m)) = soma_nivel1 v_entrada m \<and>
         total_nivel1 saida (concat (map (emit_category a b) m)) = soma_nivel1 v_saida m"
  using assms
proof (induction m)
  case Nil
  show ?case by (simp add: total_nivel1_def soma_nivel1_def)
next
  case (Cons kv m)
  then have ih: "total_nivel1 entrada (concat (map (emit_category a b) m)) = soma_nivel1 v_entrada m"
      "total_nivel1 saida (concat (map (emit_category a b) m)) = soma_nivel1 v_saida m"
    and kv: "0 \<le> v_entrada (snd kv)" "0 \<le> v_saida (snd kv)"
    by (simp_all add: valores_ok_def)
  have e: "sum_list (map totalCentavos (filter (\<lambda>c. tipo_cat c = entrada \<and> length (caminho c) = 1)
              (emit_category a b kv)))
      = (if length (v_categoriaPath (snd kv)) = 1 then v_entrada (snd kv) else 0)"
    using kv by (simp add: emit_category_def Let_def)
  have s: "sum_list (map totalCentavos (filter (\<lambda>c. tipo_cat c = saida \<and> length (caminho c) = 1)
              (emit_category a b kv)))
      = (if length (v_categoriaPath (snd kv)) = 1 then v_saida (snd kv) else 0)"
    using kv by (simp add: emit_category_def Let_def)
  show ?case
    using ih e s by (simp add: total_nivel1_def soma_nivel1_def)
qed

lemma categorias_origem:
  assumes "c \<in> set (categorias (aggregateTransactions mesAtual ts))"
  shows "caminho c \<noteq> [] \<and> (\<exists>t\<in>set ts. tem_prefixo (caminho c) (categoriaPath t))"
proof -
  have "origem_ok (set ts) (build_category_map ts)"
    unfolding build_category_map_def
    by (intro origem_ok_transactions) (simp_all add: origem_ok_def)
  moreover from categorias_entry [OF assms] obtain kv where "kv \<in> set (build_category_map ts)"
      "caminho c = v_categoriaPath (snd kv)"
    by blast
  ultimately show ?thesis unfolding origem_ok_def by auto
qed

subsection \<open>The transactions that the builder produces\<close>

lemma collapse_spaces_codes:
  "n \<in> set (collapse_spaces xs) \<Longrightarrow> n = 32 \<or> (n \<in> set xs \<and> \<not> is_space_code n)"
  by (induction xs rule: collapse_spaces.induct) (auto split: if_splits)

lemma char_of_not_separator:
  fixes n :: nat
  assumes "n = 32 \<or> (97 \<le> n \<and> n \<le> 122) \<or> (48 \<le> n \<and> n \<le> 57)"
  shows "char_of n \<noteq> CHR ''>''"
proof
  assume "char_of n = CHR ''>''"
  then have "(of_char (char_of n) :: nat) = of_char (CHR ''>'')" by simp
  then have "n mod 256 = 62" by simp
  moreover from assms have "n < 256" by auto
  ultimately have "n = 62" by simp
  with assms show False by simp
qed

lemma categoria_code_kept:
  fixes n :: nat
  assumes "n \<in> set (collapse_spaces (filter is_categoria_code xs))"
  shows "n = 32 \<or> (97 \<le> n \<and> n \<le> 122) \<or> (48 \<le> n \<and> n \<le> 57)"
proof -
  from collapse_spaces_codes [OF assms]
  have "n = 32 \<or> (is_categoria_code n \<and> \<not> is_space_code n)" by auto
  then show ?thesis unfolding is_categoria_code_def by blast
qed

lemma segment_codes:
  assumes "c \<in> set (normalizar_segmento s)"
  shows "c \<noteq> CHR ''>''"
proof -
  let ?xs = "filter (\<lambda>n. \<not> is_combining n) (normalize_NFD (toLowerCase (trim s)))"
  from assms obtain n where n: "c = char_of n"
    "n \<in> set (trim_by is_space_code (collapse_spaces (filter is_categoria_code ?xs)))"
    unfolding normalizar_segmento_def by auto
  from n(2) have "n \<in> set (collapse_spaces (filter is_categoria_code ?xs))"
    using trim_by_subset [of is_space_code] by blast
  then have "n = 32 \<or> (97 \<le> n \<and> n \<le> 122) \<or> (48 \<le> n \<and> n \<le> 57)"
    by (rule categoria_code_kept)
  then show ?thesis unfolding n(1) by (rule char_of_not_separator)
qed

lemma parseCategoriaPath_segments:
  assumes "s \<in> set (parseCategoriaPath cat)"
  shows "CHR ''>'' \<notin> set s"
proof -
  have o: "CHR ''>'' \<notin> set ''outros''" by simp
  have "s = ''outros'' \<or> (\<exists>p. s = normalizar_segmento p)"
    using assms
    by (auto simp: parseCategoriaPath_def Let_def normalizeCategoria_def split: if_splits)
  then show ?thesis using o segment_codes by blast
qed

lemma converter_valida: "transacao_valida (converter hoje raw)"
  using parseCategoriaPath_nonempty [of "raw_categoria raw"] parseCategoriaPath_segments
  by (simp add: transacao_valida_def sem_separador_def converter_def Let_def)

lemma convertToTransactionData_validas:
  "\<forall>t\<in>set (convertToTransactionData hoje raws). transacao_valida t"
  by (auto simp: convertToTransactionData_def converter_valida)

subsection \<open>The monthly aggregates\<close>

lemma localeCompare_le: "localeCompare a b \<le> 0 \<longleftrightarrow> map code a \<le> map code b"
  by (induction a b rule: localeCompare.induct) auto

lemma localeCompare_less: "localeCompare a b < 0 \<longleftrightarrow> map code a < map code b"
  by (induction a b rule: localeCompare.induct) auto

lemma sort_by_mes_asc:
  "js_sort by_mes_asc xs = sort_key (\<lambda>m. map code (mes m)) xs"
  by (rule js_sort_sort_key) (simp add: by_mes_asc_def localeCompare_le)

lemma add_month_set:
  "\<exists>v. add_month t m = map_set (substring (data t) 0 7) v m"
  by (auto simp: add_month_def Let_def)

lemma month_keys_distinct: "distinct (map fst (fold add_month ts []))"
proof (rule fold_invariant)
  show "distinct (map fst ([] :: month_map))" by simp
next
  fix t and m :: month_map
  assume "distinct (map fst m)"
  then show "distinct (map fst (add_month t m))"
    using add_month_set [of t m] distinct_map_set by metis
qed

lemma inj_map_code: "inj (map code)"
  unfolding code_def by (simp add: inj_of_char)

lemma distinct_map_sort_key: "distinct (map f (sort_key g xs)) = distinct (map f xs)"
proof -
  have "mset (map f (sort_key g xs)) = mset (map f xs)" by simp
  then show ?thesis by (rule mset_eq_imp_distinct_iff)
qed

lemma aggregateByMonth_ascending:
  "sorted_wrt (\<lambda>a b. localeCompare (mes a) (mes b) < 0) (aggregateByMonth ts)"
proof -
  let ?key = "\<lambda>m. map code (mes m)"
  let ?xs = "map month_entry (fold add_month ts [])"
  have e: "map mes ?xs = map fst (fold add_month ts [])"
    by (simp add: month_entry_def comp_def)
  have "distinct (map mes ?xs)" unfolding e by (rule month_keys_distinct)
  moreover have "inj_on (map code) (set (map mes ?xs))"
    using inj_map_code by (rule inj_on_subset) simp
  ultimately have "distinct (map (map code) (map mes ?xs))"
    by (simp only: distinct_map)
  moreover have "map (map code) (map mes ?xs) = map ?key ?xs" by simp
  ultimately have d: "distinct (map ?key ?xs)" by (simp only:)
  have "distinct (map ?key (sort_key ?key ?xs))"
    using d by (simp only: distinct_map_sort_key)
  moreover have "sorted (map ?key (sort_key ?key ?xs))" by (rule sorted_sort_key)
  ultimately have "sorted_wrt (<) (map ?key (sort_key ?key ?xs))"
    by (simp add: strict_sorted_iff)
  then have "sorted_wrt (\<lambda>a b. ?key a < ?key b) (sort_key ?key ?xs)"
    by (simp only: sorted_wrt_map)
  then show ?thesis
    by (simp add: aggregateByMonth_def sort_by_mes_asc localeCompare_less)
qed

lemma meses_sorted_by_outflow:
  "meses (aggregateTransactions mesAtual ts) = js_sort by_saidas_desc (aggregateByMonth ts)"
  by (cases "aggregateByMonth ts") (simp_all add: aggregateTransactions_def Let_def js_sort_def)

subsection \<open>The examples\<close>

lemma categorias_misto:
  "map (\<lambda>c. (nome c, caminho c, tipo_cat c, totalCentavos c, transactionCount c))
       (categorias (aggregateTransactions ''2024-02'' exemplo_misto))
   = [(''moradia'', [''moradia''], saida, 120000, 1),
      (''alimentacao'', [''alimentacao''], saida, 10000, 2),
      (''transporte'', [''transporte''], saida, 2500, 1),
      (''transporte > apps'', [''transporte'', ''apps''], saida, 2500, 1),
      (''transporte > apps > uber'', [''transporte'', ''apps'', ''uber''], saida, 2500, 1),
      (''alimentacao'', [''alimentacao''], entrada, 2000, 2)]"
  by (simp add: exemplo_misto_def aggregate_eval Let_def)

lemma top_uber:
  "map caminho (topCategorias (aggregateTransactions ''2024-02'' exemplo_uber))
     = [[''transporte''], [''transporte'', ''apps''], [''transporte'', ''apps'', ''uber'']]"
  by (simp add: exemplo_uber_def aggregate_eval Let_def)

lemma saidas_top:
  "map (\<lambda>c. (nome c, totalCentavos c)) (saidas_de (aggregateTransactions ''2024-02'' exemplo_top))
     = [(''moradia'', 37900), (''moradia > aluguel'', 37900),
        (''moradia > aluguel > housi'', 37900), (''transporte'', 2500),
        (''transporte > apps'', 2500), (''transporte > apps > uber'', 2500)]"
  by (simp add: exemplo_top_def saidas_de_def aggregate_eval Let_def)

lemma validos_misto: "list_all transacao_valida exemplo_misto"
  by (simp add: exemplo_misto_def transacao_def transacao_valida_def sem_separador_def)

section \<open>The claims on the category aggregates\<close>

lemma nivel1_totals_validas:
  assumes "\<forall>t\<in>set ts. transacao_valida t"
  shows "(soma_tipo Entrada ts \<le> 9007199254740992 \<longrightarrow>
            total_nivel1 entrada (categorias (aggregateTransactions mesAtual ts))
              = totalEntradasCentavos (aggregateTransactions mesAtual ts) \<and>
            totalEntradasCentavos (aggregateTransactions mesAtual ts) = soma_tipo Entrada ts) \<and>
         (soma_tipo Saida ts \<le> 9007199254740992 \<longrightarrow>
            total_nivel1 saida (categorias (aggregateTransactions mesAtual ts))
              = totalSaidasCentavos (aggregateTransactions mesAtual ts) \<and>
            totalSaidasCentavos (aggregateTransactions mesAtual ts) = soma_tipo Saida ts)"
proof -
  have ok: "chave_ok []" by (simp add: chave_ok_def)
  have vok: "valores_ok []" by (simp add: valores_ok_def)
  have pos: "\<forall>t\<in>set ts. 0 \<le> valorCentavos t"
    using assms by (simp add: transacao_valida_def)
  have v: "valores_ok (build_category_map ts)"
    unfolding build_category_map_def using pos vok by (rule valores_ok_transactions)
  have s: "soma_nivel1 (v_total k) (build_category_map ts) = soma_tipo k ts"
    if "soma_tipo k ts \<le> 9007199254740992" for k
    unfolding build_category_map_def
    using soma_transactions [OF assms ok vok, of k] that by (simp add: soma_nivel1_def)
  have t: "total_of k ts = soma_tipo k ts" if "soma_tipo k ts \<le> 9007199254740992" for k
    using pos that by (rule total_of_exato)
  show ?thesis
    unfolding categorias_eq total_nivel1_sort
    using total_nivel1_emit [OF v] s [of Entrada] s [of Saida] t [of Entrada] t [of Saida]
    by (simp add: totals_of_aggregate v_total_simps)
qed

lemma soma_tipo_lote:
  "soma_tipo Entrada (convertToTransactionData ''2024-02-01'' exemplo_lote) = 10000"
  "soma_tipo Saida (convertToTransactionData ''2024-02-01'' exemplo_lote) = 130000"
  using valor_100 valor_m20 valor_1200 valor_m80
  by (simp_all add: soma_tipo_def convertToTransactionData_def exemplo_lote_def passa_exemplos
      converter_def Let_def) (simp_all add: registro_def)

text \<open>
  C5, as the code has it. For transactions that keep the invariants of the data model
  (an amount that is not negative, a path of at least one segment, segments without
  the separator character), as do all those that \<open>convertToTransactionData\<close> produces,
  and for each kind of which the amounts sum to at most 2^53 = 9007199254740992: the
  sum of \<open>totalCentavos\<close> over the entries of \<open>categorias\<close> of that kind whose path has
  exactly one segment is the grand total of that kind, \<open>totalEntradasCentavos\<close> for
  the inflow entries and \<open>totalSaidasCentavos\<close> for the outflow entries, and that grand
  total is the sum of the amounts as integers. Up to that bound no addition of the
  code rounds.
\<close>

theorem nivel1_totals:
  "((\<forall>t\<in>set ts. transacao_valida t) \<longrightarrow>
      (soma_tipo Entrada ts \<le> 9007199254740992 \<longrightarrow>
         total_nivel1 entrada (categorias (aggregateTransactions mesAtual ts))
           = totalEntradasCentavos (aggregateTransactions mesAtual ts) \<and>
         totalEntradasCentavos (aggregateTransactions mesAtual ts) = soma_tipo Entrada ts) \<and>
      (soma_tipo Saida ts \<le> 9007199254740992 \<longrightarrow>
         total_nivel1 saida (categorias (aggregateTransactions mesAtual ts))
           = totalSaidasCentavos (aggregateTransactions mesAtual ts) \<and>
         totalSaidasCentavos (aggregateTransactions mesAtual ts) = soma_tipo Saida ts)) \<and>
   (soma_tipo Entrada (convertToTransactionData hoje raws) \<le> 9007199254740992 \<longrightarrow>
      total_nivel1 entrada
          (categorias (aggregateTransactions mesAtual (convertToTransactionData hoje raws)))
        = totalEntradasCentavos
            (aggregateTransactions mesAtual (convertToTransactionData hoje raws)) \<and>
      totalEntradasCentavos (aggregateTransactions mesAtual (convertToTransactionData hoje raws))
        = soma_tipo Entrada (convertToTransactionData hoje raws)) \<and>
   (soma_tipo Saida (convertToTransactionData hoje raws) \<le> 9007199254740992 \<longrightarrow>
      total_nivel1 saida
          (categorias (aggregateTransactions mesAtual (convertToTransactionData hoje raws)))
        = totalSaidasCentavos
            (aggregateTransactions mesAtual (convertToTransactionData hoje raws)) \<and>
      totalSaidasCentavos (aggregateTransactions mesAtual (convertToTransactionData hoje raws))
        = soma_tipo Saida (convertToTransactionData hoje raws))"
  using nivel1_totals_validas [of ts mesAtual]
    nivel1_totals_validas [OF convertToTransactionData_validas [of hoje raws], of mesAtual]
  by blast

theorem nivel1_totals_witness:
  "list_all transacao_valida exemplo_misto \<and>
   soma_tipo Entrada exemplo_misto = 2000 \<and>
   soma_tipo Saida exemplo_misto = 132500 \<and>
   total_nivel1 entrada (categorias (aggregateTransactions ''2024-02'' exemplo_misto)) = 2000 \<and>
   total_nivel1 saida (categorias (aggregateTransactions ''2024-02'' exemplo_misto)) = 132500 \<and>
   totalEntradasCentavos (aggregateTransactions ''2024-02'' exemplo_misto) = 2000 \<and>
   totalSaidasCentavos (aggregateTransactions ''2024-02'' exemplo_misto) = 132500 \<and>
   soma_tipo Entrada (convertToTransactionData ''2024-02-01'' exemplo_lote) = 10000 \<and>
   soma_tipo Saida (convertToTransactionData ''2024-02-01'' exemplo_lote) = 130000 \<and>
   total_nivel1 entrada (categorias (aggregateTransactions ''2024-02''
       (convertToTransactionData ''2024-02-01'' exemplo_lote))) = 10000 \<and>
   total_nivel1 saida (categorias (aggregateTransactions ''2024-02''
       (convertToTransactionData ''2024-02-01'' exemplo_lote))) = 130000"
proof -
  have v: "\<forall>t\<in>set exemplo_misto. transacao_valida t"
    using validos_misto by (simp only: list_all_iff)
  have e: "soma_tipo Entrada exemplo_misto = 2000"
    by (simp add: soma_tipo_def exemplo_misto_def transacao_def)
  have s: "soma_tipo Saida exemplo_misto = 132500"
    by (simp add: soma_tipo_def exemplo_misto_def transacao_def)
  have e': "soma_tipo Entrada exemplo_misto \<le> 9007199254740992" unfolding e by simp
  have s': "soma_tipo Saida exemplo_misto \<le> 9007199254740992" unfolding s by simp
  have l: "soma_tipo Entrada (convertToTransactionData ''2024-02-01'' exemplo_lote)
      \<le> 9007199254740992"
    "soma_tipo Saida (convertToTransactionData ''2024-02-01'' exemplo_lote) \<le> 9007199254740992"
    unfolding soma_tipo_lote by simp_all
  note inst = nivel1_totals [of exemplo_misto "''2024-02''" "''2024-02-01''" exemplo_lote]
  have a: "total_nivel1 entrada (categorias (aggregateTransactions ''2024-02'' exemplo_misto))
        = totalEntradasCentavos (aggregateTransactions ''2024-02'' exemplo_misto)"
      "totalEntradasCentavos (aggregateTransactions ''2024-02'' exemplo_misto)
        = soma_tipo Entrada exemplo_misto"
      "total_nivel1 saida (categorias (aggregateTransactions ''2024-02'' exemplo_misto))
        = totalSaidasCentavos (aggregateTransactions ''2024-02'' exemplo_misto)"
      "totalSaidasCentavos (aggregateTransactions ''2024-02'' exemplo_misto)
        = soma_tipo Saida exemplo_misto"
    using inst v e' s' by blast+
  have b: "total_nivel1 entrada (categorias (aggregateTransactions ''2024-02''
        (convertToTransactionData ''2024-02-01'' exemplo_lote)))
      = totalEntradasCentavos (aggregateTransactions ''2024-02''
          (convertToTransactionData ''2024-02-01'' exemplo_lote))"
    "totalEntradasCentavos (aggregateTransactions ''2024-02''
          (convertToTransactionData ''2024-02-01'' exemplo_lote))
      = soma_tipo Entrada (convertToTransactionData ''2024-02-01'' exemplo_lote)"
    "total_nivel1 saida (categorias (aggregateTransactions ''2024-02''
        (convertToTransactionData ''2024-02-01'' exemplo_lote)))
      = totalSaidasCentavos (aggregateTransactions ''2024-02''
          (convertToTransactionData ''2024-02-01'' exemplo_lote))"
    "totalSaidasCentavos (aggregateTransactions ''2024-02''
          (convertToTransactionData ''2024-02-01'' exemplo_lote))
      = soma_tipo Saida (convertToTransactionData ''2024-02-01'' exemplo_lote)"
    using inst l by blast+
  show ?thesis
    using validos_misto e s a b soma_tipo_lote by simp
qed

text \<open>
  C5 as stated fails, the additions of the code being those of doubles. With an
  outflow of 2^53 centavos under one category (the amount that the builder reads from
  \<open>90071992547409.92\<close>, lemma \<open>valor_2_53\<close>) and two outflows of one centavo under
  another, the entries of one segment hold 9007199254740992 and 2, which sum to
  9007199254740994, while the grand total stays at 9007199254740992: adding one
  centavo to 2^53 gives 2^53 again, both times.
\<close>

theorem nivel1_totals_rounding:
  "list_all transacao_valida exemplo_arredondado \<and>
   map (\<lambda>c. (nome c, tipo_cat c, totalCentavos c))
       (categorias (aggregateTransactions ''2024-02'' exemplo_arredondado))
     = [(''imoveis'', saida, 9007199254740992), (''taxas'', saida, 2)] \<and>
   total_nivel1 saida (categorias (aggregateTransactions ''2024-02'' exemplo_arredondado))
     = 9007199254740994 \<and>
   totalSaidasCentavos (aggregateTransactions ''2024-02'' exemplo_arredondado)
     = 9007199254740992 \<and>
   total_nivel1 saida (categorias (aggregateTransactions ''2024-02'' exemplo_arredondado))
     \<noteq> totalSaidasCentavos (aggregateTransactions ''2024-02'' exemplo_arredondado)"
proof -
  have v: "list_all transacao_valida exemplo_arredondado"
    by (simp add: exemplo_arredondado_def transacao_def transacao_valida_def sem_separador_def)
  have c: "map (\<lambda>c. (nome c, caminho c, tipo_cat c, totalCentavos c))
       (categorias (aggregateTransactions ''2024-02'' exemplo_arredondado))
     = [(''imoveis'', [''imoveis''], saida, 9007199254740992),
        (''taxas'', [''taxas''], saida, 2)]"
    by (simp add: exemplo_arredondado_def aggregate_eval js_number_tie Let_def)
  have c1: "map (\<lambda>c. (nome c, tipo_cat c, totalCentavos c))
       (categorias (aggregateTransactions ''2024-02'' exemplo_arredondado))
     = [(''imoveis'', saida, 9007199254740992), (''taxas'', saida, 2)]"
    using arg_cong [OF c, of "map (\<lambda>(n, p, k, v). (n, k, v))"] by (simp add: comp_def)
  have "map (\<lambda>c. (tipo_cat c, length (caminho c), totalCentavos c))
       (categorias (aggregateTransactions ''2024-02'' exemplo_arredondado))
     = [(saida, 1, 9007199254740992), (saida, 1, 2)]"
    using arg_cong [OF c, of "map (\<lambda>(n, p, k, v). (k, length p, v))"] by (simp add: comp_def)
  then have n: "total_nivel1 saida
       (categorias (aggregateTransactions ''2024-02'' exemplo_arredondado)) = 9007199254740994"
    by (auto simp: total_nivel1_def map_eq_Cons_conv)
  have t: "totalSaidasCentavos (aggregateTransactions ''2024-02'' exemplo_arredondado)
     = 9007199254740992"
    by (simp add: totals_of_aggregate total_of_def exemplo_arredondado_def transacao_def
        js_number_exact js_number_tie)
  show ?thesis using v c1 n t by simp
qed

lemma transactionCount_prefixo:
  assumes "\<forall>t\<in>set ts. sem_separador t"
  shows "\<forall>c\<in>set (categorias (aggregateTransactions mesAtual ts)).
           transactionCount c = conta_prefixo (caminho c) ts \<and>
           (\<forall>d\<in>set (categorias (aggregateTransactions mesAtual ts)).
              caminho d = caminho c \<longrightarrow> transactionCount d = transactionCount c)"
proof -
  have ok: "chave_ok (build_category_map ts)"
    unfolding build_category_map_def
    using assms by (intro chave_ok_transactions) (simp_all add: chave_ok_def)
  have count: "transactionCount c = conta_prefixo (caminho c) ts"
    if c: "c \<in> set (categorias (aggregateTransactions mesAtual ts))" for c
  proof -
    from categorias_entry [OF c] obtain kv where kv: "kv \<in> set (build_category_map ts)"
      "caminho c = v_categoriaPath (snd kv)" "transactionCount c = v_transactionCount (snd kv)"
      by blast
    note p = chave_okD(2) [OF ok kv(1)]
    have "map_of (build_category_map ts) (fst kv) = Some (snd kv)"
      using chave_okD(1) [OF ok] kv(1) by (cases kv) simp
    then have "contagem (build_category_map ts) (join '' > '' (v_categoriaPath (snd kv)))
        = v_transactionCount (snd kv)"
      using p by (simp add: contagem_def)
    moreover have "contagem (build_category_map ts) (join '' > '' (v_categoriaPath (snd kv)))
        = conta_prefixo (v_categoriaPath (snd kv)) ts"
      using p assms by (intro contagem_prefixo) simp_all
    ultimately show ?thesis using kv by simp
  qed
  show ?thesis
  proof (intro ballI conjI impI)
    fix c assume "c \<in> set (categorias (aggregateTransactions mesAtual ts))"
    then show "transactionCount c = conta_prefixo (caminho c) ts" by (rule count)
  next
    fix c d
    assume "c \<in> set (categorias (aggregateTransactions mesAtual ts))"
      "d \<in> set (categorias (aggregateTransactions mesAtual ts))" "caminho d = caminho c"
    then show "transactionCount d = transactionCount c" using count by simp
  qed
qed

text \<open>
  C10. For transactions whose segments are free of the separator character, as are
  all those that \<open>convertToTransactionData\<close> produces, the \<open>transactionCount\<close> of every
  entry of \<open>categorias\<close> is the number of transactions, of either kind, whose path has
  the entry's path as a prefix. Two entries with the same path, the inflow one and the
  outflow one, so carry the same count.
\<close>

theorem transactionCount_combined:
  "((\<forall>t\<in>set ts. sem_separador t) \<longrightarrow>
      (\<forall>c\<in>set (categorias (aggregateTransactions mesAtual ts)).
         transactionCount c = conta_prefixo (caminho c) ts \<and>
         (\<forall>d\<in>set (categorias (aggregateTransactions mesAtual ts)).
            caminho d = caminho c \<longrightarrow> transactionCount d = transactionCount c))) \<and>
   (\<forall>c\<in>set (categorias (aggregateTransactions mesAtual (convertToTransactionData hoje raws))).
      transactionCount c = conta_prefixo (caminho c) (convertToTransactionData hoje raws) \<and>
      (\<forall>d\<in>set (categorias (aggregateTransactions mesAtual (convertToTransactionData hoje raws))).
         caminho d = caminho c \<longrightarrow> transactionCount d = transactionCount c))"
proof -
  have "\<forall>t\<in>set (convertToTransactionData hoje raws). sem_separador t"
    using convertToTransactionData_validas [of hoje raws] by (simp add: transacao_valida_def)
  from transactionCount_prefixo [OF this, of mesAtual] transactionCount_prefixo [of ts mesAtual]
  show ?thesis by blast
qed

theorem transactionCount_combined_witness:
  "list_all sem_separador exemplo_misto \<and>
   map (\<lambda>c. (nome c, tipo_cat c, transactionCount c))
       (categorias (aggregateTransactions ''2024-02'' exemplo_misto))
     = [(''moradia'', saida, 1), (''alimentacao'', saida, 2), (''transporte'', saida, 1),
        (''transporte > apps'', saida, 1), (''transporte > apps > uber'', saida, 1),
        (''alimentacao'', entrada, 2)] \<and>
   conta_prefixo [''alimentacao''] exemplo_misto = 2 \<and>
   transactionCount (categorias (aggregateTransactions ''2024-02'' exemplo_misto) ! 5)
     = conta_prefixo (caminho (categorias (aggregateTransactions ''2024-02'' exemplo_misto) ! 5))
         exemplo_misto"
proof -
  let ?cs = "categorias (aggregateTransactions ''2024-02'' exemplo_misto)"
  have sep: "list_all sem_separador exemplo_misto"
    by (simp add: exemplo_misto_def transacao_def sem_separador_def)
  then have h: "\<forall>t\<in>set exemplo_misto. sem_separador t" by (simp only: list_all_iff)
  have a: "map (\<lambda>c. (nome c, tipo_cat c, transactionCount c)) ?cs
     = [(''moradia'', saida, 1), (''alimentacao'', saida, 2), (''transporte'', saida, 1),
        (''transporte > apps'', saida, 1), (''transporte > apps > uber'', saida, 1),
        (''alimentacao'', entrada, 2)]"
    using arg_cong [OF categorias_misto, of "map (\<lambda>(n, p, k, v, c). (n, k, c))"]
    by (simp add: comp_def)
  have len: "length ?cs = 6" using arg_cong [OF a, of length] by simp
  have b: "conta_prefixo [''alimentacao''] exemplo_misto = 2"
    by (simp add: conta_prefixo_def tem_prefixo_def exemplo_misto_def transacao_def)
  have "?cs ! 5 \<in> set ?cs" using len by (intro nth_mem) simp
  then have c: "transactionCount (?cs ! 5) = conta_prefixo (caminho (?cs ! 5)) exemplo_misto"
    using transactionCount_combined [of exemplo_misto "''2024-02''"] h by blast
  show ?thesis using sep a b c by blast
qed

text \<open>
  C2, as the code has it. \<open>topCategorias\<close> is the first five (or fewer, when there are
  fewer) of the outflow entries of \<open>categorias\<close>, which are in descending order of
  total: every entry left out has a total that is at most the total of every entry
  taken. The entries are those of all levels: the path of an entry is a prefix, not
  empty but possibly proper, of the path of some transaction.
\<close>

theorem topCategorias_largest_outflows:
  "topCategorias (aggregateTransactions mesAtual ts)
     = take 5 (saidas_de (aggregateTransactions mesAtual ts)) \<and>
   sorted_wrt (\<lambda>a b. totalCentavos a \<ge> totalCentavos b)
     (saidas_de (aggregateTransactions mesAtual ts)) \<and>
   length (topCategorias (aggregateTransactions mesAtual ts))
     = min 5 (length (saidas_de (aggregateTransactions mesAtual ts))) \<and>
   (\<forall>c\<in>set (topCategorias (aggregateTransactions mesAtual ts)).
      tipo_cat c = saida \<and> caminho c \<noteq> [] \<and>
      (\<exists>t\<in>set ts. tem_prefixo (caminho c) (categoriaPath t)) \<and>
      (\<forall>d\<in>set (drop 5 (saidas_de (aggregateTransactions mesAtual ts))).
         totalCentavos d \<le> totalCentavos c))"
proof -
  let ?r = "aggregateTransactions mesAtual ts"
  let ?s = "saidas_de ?r"
  have t: "topCategorias ?r = take 5 ?s"
    by (rule topCategorias_take)
  have s: "sorted_wrt (\<lambda>a b. totalCentavos a \<ge> totalCentavos b) ?s"
    using saidas_sorted [of mesAtual ts] by (simp add: sorted_map)
  then have "sorted_wrt (\<lambda>a b. totalCentavos a \<ge> totalCentavos b) (take 5 ?s @ drop 5 ?s)"
    by simp
  then have big: "\<forall>c\<in>set (take 5 ?s). \<forall>d\<in>set (drop 5 ?s). totalCentavos d \<le> totalCentavos c"
    unfolding sorted_wrt_append by blast
  have mem: "tipo_cat c = saida \<and> caminho c \<noteq> [] \<and>
      (\<exists>t\<in>set ts. tem_prefixo (caminho c) (categoriaPath t))" if "c \<in> set (take 5 ?s)" for c
  proof -
    from that have "c \<in> set ?s" by (rule in_set_takeD)
    then have "tipo_cat c = saida" "c \<in> set (categorias ?r)" by (simp_all add: saidas_de_def)
    then show ?thesis using categorias_origem by blast
  qed
  have l: "length (topCategorias ?r) = min 5 (length ?s)" unfolding t by simp
  show ?thesis
    using t s l big mem by simp
qed

theorem topCategorias_largest_outflows_witness:
  "map nome (topCategorias (aggregateTransactions ''2024-02'' exemplo_top))
     = [''moradia'', ''moradia > aluguel'', ''moradia > aluguel > housi'', ''transporte'',
        ''transporte > apps''] \<and>
   map nome (drop 5 (saidas_de (aggregateTransactions ''2024-02'' exemplo_top)))
     = [''transporte > apps > uber''] \<and>
   totalCentavos (saidas_de (aggregateTransactions ''2024-02'' exemplo_top) ! 5)
     \<le> totalCentavos (topCategorias (aggregateTransactions ''2024-02'' exemplo_top) ! 0)"
proof -
  let ?r = "aggregateTransactions ''2024-02'' exemplo_top"
  note inst = topCategorias_largest_outflows [of "''2024-02''" exemplo_top]
  have top: "topCategorias ?r = take 5 (saidas_de ?r)" using inst by blast
  have names: "map nome (saidas_de ?r)
     = [''moradia'', ''moradia > aluguel'', ''moradia > aluguel > housi'', ''transporte'',
        ''transporte > apps'', ''transporte > apps > uber'']"
    using arg_cong [OF saidas_top, of "map fst"] by (simp add: comp_def)
  have len: "length (saidas_de ?r) = 6"
    using arg_cong [OF names, of length] by simp
  have a: "map nome (topCategorias ?r)
     = [''moradia'', ''moradia > aluguel'', ''moradia > aluguel > housi'', ''transporte'',
        ''transporte > apps'']"
    unfolding top take_map [symmetric] names by simp
  have b: "map nome (drop 5 (saidas_de ?r)) = [''transporte > apps > uber'']"
    unfolding drop_map [symmetric] names by simp
  have m1: "topCategorias ?r ! 0 \<in> set (topCategorias ?r)"
    using len top by (intro nth_mem) simp
  have "drop 5 (saidas_de ?r) ! 0 \<in> set (drop 5 (saidas_de ?r))"
    using len by (intro nth_mem) simp
  then have m2: "saidas_de ?r ! 5 \<in> set (drop 5 (saidas_de ?r))"
    using len by simp
  have c: "totalCentavos (saidas_de ?r ! 5) \<le> totalCentavos (topCategorias ?r ! 0)"
    using inst m1 m2 by blast
  show ?thesis using a b c by blast
qed

text \<open>
  C2 as stated fails: for the single ride filed under \<open>transporte > apps > uber\<close>,
  \<open>topCategorias\<close> holds three entries, and the first two, \<open>transporte\<close> and
  \<open>transporte > apps\<close>, are ancestor prefixes, the full path of no transaction.
\<close>

theorem topCategorias_ancestors:
  "map caminho (topCategorias (aggregateTransactions ''2024-02'' exemplo_uber))
     = [[''transporte''], [''transporte'', ''apps''], [''transporte'', ''apps'', ''uber'']] \<and>
   map categoriaPath exemplo_uber = [[''transporte'', ''apps'', ''uber'']]"
  using top_uber by (simp add: exemplo_uber_def transacao_def)

end
